theory Spec2Isabelle
  imports Main "HOL-Library.AList" "HOL-Library.Sublist"
begin

section \<open>Strings\<close>

text \<open>
  Python strings are modelled as \<^typ>\<open>string\<close>, one \<^typ>\<open>char\<close> per character, the
  \<^typ>\<open>char\<close> being the code point: the model covers text whose characters lie below
  U+0100. On these, \<open>lower\<close>, \<open>strip\<close> and the regular expressions below do what Python
  does: the white space is that of \<open>str.isspace\<close>, the upper-case letters are A to Z and
  U+00C0 to U+00DE without the multiplication sign, the digits of \<open>\d\<close> are 0 to 9, and
  under \<open>re.I\<close> no character but a letter and its other case matches an ASCII letter.
\<close>

definition is_space :: "char \<Rightarrow> bool" where
  \<comment> \<open>the characters below U+0100 for which \<open>str.isspace\<close> holds, the no-break
      space and the next-line control among them\<close>
  "is_space c = (c \<in> set [CHR 0x09, CHR 0x0A, CHR 0x0B, CHR 0x0C, CHR 0x0D,
                             CHR 0x1C, CHR 0x1D, CHR 0x1E, CHR 0x1F, CHR 0x20,
                             CHR 0x85, CHR 0xA0])"

definition strip :: "string \<Rightarrow> string" where
  \<comment> \<open>\<open>s.strip()\<close>\<close>
  "strip s = rev (dropWhile is_space (rev (dropWhile is_space s)))"

definition lower_char :: "char \<Rightarrow> char" where
  \<comment> \<open>A to Z and the upper-case letters from U+00C0 to U+00DE have their lower case 32
      places on\<close>
  "lower_char c =
     (let n = (of_char c :: nat)
      in if (65 \<le> n \<and> n \<le> 90) \<or> (192 \<le> n \<and> n \<le> 214) \<or> (216 \<le> n \<and> n \<le> 222)
         then char_of (n + 32) else c)"

definition lower :: "string \<Rightarrow> string" where
  \<comment> \<open>\<open>s.lower()\<close>\<close>
  "lower s = map lower_char s"

definition startswith :: "string \<Rightarrow> string \<Rightarrow> bool" where
  \<comment> \<open>\<open>s.startswith(p)\<close>\<close>
  "startswith s p = prefix p s"

fun str_in :: "string \<Rightarrow> string \<Rightarrow> bool" where
  \<comment> \<open>\<open>sub in s\<close>\<close>
  "str_in sub [] = (sub = [])"
| "str_in sub (c # cs) = (prefix sub (c # cs) \<or> str_in sub cs)"

fun join_sp :: "string list \<Rightarrow> string" where
  \<comment> \<open>\<open>' '.join(xs)\<close>\<close>
  "join_sp [] = []"
| "join_sp [x] = x"
| "join_sp (x # y # ys) = x @ '' '' @ join_sp (y # ys)"

fun nonwhitespace :: "string \<Rightarrow> string \<Rightarrow> string list" where
  \<comment> \<open>\<open>re.findall(r'\S+', s)\<close>, the first argument being the token read so far\<close>
  "nonwhitespace cur [] = (if cur = [] then [] else [cur])"
| "nonwhitespace cur (c # cs) =
     (if is_space c then (if cur = [] then nonwhitespace [] cs else cur # nonwhitespace [] cs)
      else nonwhitespace (cur @ [c]) cs)"

subsection \<open>The regular expressions of the scraper\<close>

text \<open>
  The program compiles two kinds of pattern, both with \<open>re.I\<close>: an alternation of
  literal words, such as \<open>title|heading|name\<close>, and the date pattern
  \<open>\d{2}[/-]\d{2}[/-]\d{2,4}\<close>. It only ever calls \<open>search\<close> on them.
\<close>

datatype pattern =
    Alt_I "string list"   \<comment> \<open>\<open>re.compile(r'w1|w2|...', re.I)\<close>\<close>
  | Date_I                \<comment> \<open>\<open>re.compile(r'\d{2}[/-]\d{2}[/-]\d{2,4}', re.I)\<close>\<close>

definition is_digit :: "char \<Rightarrow> bool" where
  "is_digit c = (c \<in> set ''0123456789'')"

definition is_date_sep :: "char \<Rightarrow> bool" where
  "is_date_sep c = (c = CHR ''/'' \<or> c = CHR ''-'')"

fun date_at :: "string \<Rightarrow> bool" where
  \<comment> \<open>the date pattern matches at the start of the string; two year digits are enough
      for the greedy \<open>\d{2,4}\<close> to match\<close>
  "date_at (a # b # c # d # e # f # g # h # rest) =
     (is_digit a \<and> is_digit b \<and> is_date_sep c \<and> is_digit d \<and> is_digit e \<and>
      is_date_sep f \<and> is_digit g \<and> is_digit h)"
| "date_at _ = False"

fun date_in :: "string \<Rightarrow> bool" where
  "date_in [] = False"
| "date_in (c # cs) = (date_at (c # cs) \<or> date_in cs)"

fun re_search :: "pattern \<Rightarrow> string \<Rightarrow> bool" where
  \<comment> \<open>\<open>p.search(s)\<close> finds a match\<close>
  "re_search (Alt_I ws) s = list_ex (\<lambda>w. str_in (lower w) (lower s)) ws"
| "re_search Date_I s = date_in s"

section \<open>The parsed document\<close>

text \<open>
  A Beautiful Soup tree: a \<open>Tag\<close> has a name, its attributes and its children; a leaf
  is a string of one of the classes of Beautiful Soup, all of them subclasses of
  \<open>NavigableString\<close> and so of \<open>str\<close>. The parser decides the class: a comment is a
  \<open>Comment\<close>, a CDATA section a \<open>CData\<close>, and a string below a \<open>script\<close>,
  \<open>style\<close>, \<open>template\<close>, \<open>rt\<close> or \<open>rp\<close> tag is a \<open>Script\<close>, \<open>Stylesheet\<close>,
  \<open>TemplateString\<close>, \<open>RubyTextString\<close> or \<open>RubyParenthesisString\<close>; a
  declaration, doctype or processing instruction behaves like a \<open>Comment\<close> in all that
  follows. The document itself is the tag that \<open>BeautifulSoup(...)\<close> returns, named
  \<open>[document]\<close>.

  The attributes of a tag are held as the document writes them, in its order. Of an
  attribute written twice the last value counts, and Beautiful Soup keeps the attributes
  of \<open>cdata_list_attributes\<close> (\<open>class\<close> above all) as the list of their white-space
  separated words: \<open>attr_value\<close> is the value that \<open>tag.attrs\<close> holds.
\<close>

datatype string_class =
    NavigableString | CData | Comment | Stylesheet | Script | TemplateString
  | RubyTextString | RubyParenthesisString

datatype node =
    Tag string "(string \<times> string) list" "node list"
  | Text string_class string

datatype attr = Single string | Multi "string list"

definition cdata_list_attributes :: "(string \<times> string list) list" where
  \<comment> \<open>\<open>HTMLTreeBuilder.DEFAULT_CDATA_LIST_ATTRIBUTES\<close>\<close>
  "cdata_list_attributes =
     [(''*'', [''class'', ''accesskey'', ''dropzone'']),
      (''a'', [''rel'', ''rev'']), (''link'', [''rel'', ''rev'']),
      (''td'', [''headers'']), (''th'', [''headers'']),
      (''form'', [''accept-charset'']), (''object'', [''archive'']),
      (''area'', [''rel'']), (''icon'', [''sizes'']), (''iframe'', [''sandbox'']),
      (''output'', [''for''])]"

definition is_cdata_list :: "string \<Rightarrow> string \<Rightarrow> bool" where
  \<comment> \<open>the attribute \<open>k\<close> of a tag of this name holds a list\<close>
  "is_cdata_list tag_name k =
     ((case map_of cdata_list_attributes ''*'' of Some ks \<Rightarrow> k \<in> set ks | None \<Rightarrow> False) \<or>
      (case map_of cdata_list_attributes (lower tag_name) of
         Some ks \<Rightarrow> k \<in> set ks
       | None \<Rightarrow> False))"

definition attr_written :: "(string \<times> string) list \<Rightarrow> string \<Rightarrow> string option" where
  \<comment> \<open>the value the document gives the attribute: the last one written\<close>
  "attr_written attrs k = map_of (rev attrs) k"

definition attr_value :: "string \<Rightarrow> (string \<times> string) list \<Rightarrow> string \<Rightarrow> attr option" where
  \<comment> \<open>\<open>tag.attrs.get(k)\<close> for a tag of this name\<close>
  "attr_value tag_name attrs k =
     (case attr_written attrs k of
        None \<Rightarrow> None
      | Some v \<Rightarrow>
          if is_cdata_list tag_name k then Some (Multi (nonwhitespace [] v)) else Some (Single v))"

fun descendants :: "node \<Rightarrow> node list" where
  \<comment> \<open>\<open>tag.descendants\<close>: every node below the tag, in document order\<close>
  "descendants (Tag n a cs) = concat (map (\<lambda>c. c # descendants c) cs)"
| "descendants (Text c s) = []"

subsection \<open>Searching the tree\<close>

datatype match_against = MTrue | MStr string | MRe pattern

fun matches_str :: "string \<Rightarrow> match_against \<Rightarrow> bool" where
  "matches_str s MTrue = True"
| "matches_str s (MStr t) = (s = t)"
| "matches_str s (MRe p) = re_search p s"

fun matches :: "attr option \<Rightarrow> match_against \<Rightarrow> bool" where
  \<comment> \<open>\<open>SoupStrainer._matches\<close> on an attribute value: a list matches when one of its
      items does or the items joined by spaces do; a missing attribute matches only an
      empty string\<close>
  "matches None MTrue = False"
| "matches None (MStr t) = (t = [])"
| "matches None (MRe p) = False"
| "matches (Some (Multi vs)) m = (list_ex (\<lambda>v. matches_str v m) vs \<or> matches_str (join_sp vs) m)"
| "matches (Some (Single s)) m = matches_str s m"

fun search_tag :: "string \<Rightarrow> (string \<times> match_against) list \<Rightarrow> node \<Rightarrow> bool" where
  \<comment> \<open>the node is a tag of this name whose attributes match every given rule\<close>
  "search_tag name rules (Tag n a cs) =
     (n = name \<and> list_all (\<lambda>(k, m). matches (attr_value n a k) m) rules)"
| "search_tag name rules _ = False"

fun search_text :: "pattern \<Rightarrow> node \<Rightarrow> bool" where
  \<comment> \<open>the node is a string, of any class, that the pattern finds a match in\<close>
  "search_text p (Tag n a cs) = False"
| "search_text p (Text c s) = re_search p s"

definition find_tag :: "string \<Rightarrow> (string \<times> match_against) list \<Rightarrow> node \<Rightarrow> node option" where
  \<comment> \<open>\<open>tag.find(name, k=m, ...)\<close>\<close>
  "find_tag name rules e = List.find (search_tag name rules) (descendants e)"

definition find_all :: "string \<Rightarrow> (string \<times> match_against) list \<Rightarrow> node \<Rightarrow> node list" where
  \<comment> \<open>\<open>tag.find_all(name, k=m, ...)\<close>\<close>
  "find_all name rules e = filter (search_tag name rules) (descendants e)"

definition find_text :: "pattern \<Rightarrow> node \<Rightarrow> node option" where
  \<comment> \<open>\<open>tag.find(text=p)\<close>\<close>
  "find_text p e = List.find (search_text p) (descendants e)"

definition string_containers :: "(string \<times> string_class) list" where
  \<comment> \<open>\<open>HTMLTreeBuilder.DEFAULT_STRING_CONTAINERS\<close>\<close>
  "string_containers =
     [(''rt'', RubyTextString), (''rp'', RubyParenthesisString), (''style'', Stylesheet),
      (''script'', Script), (''template'', TemplateString)]"

fun interesting_string_types :: "node \<Rightarrow> string_class list" where
  \<comment> \<open>\<open>tag.interesting_string_types\<close>: the classes of string that count as the text
      of the tag\<close>
  "interesting_string_types (Tag n a cs) =
     (case map_of string_containers n of
        Some c \<Rightarrow> [c]
      | None \<Rightarrow> [NavigableString, CData])"
| "interesting_string_types (Text c s) = [NavigableString, CData]"

fun stripped_string :: "string_class list \<Rightarrow> node \<Rightarrow> string list" where
  \<comment> \<open>what a node gives to \<open>_all_strings(strip=True, types=types)\<close>: a string of one
      of the classes gives its stripped text, unless that is empty\<close>
  "stripped_string types (Text c s) =
     (if c \<in> set types then (if strip s = [] then [] else [strip s]) else [])"
| "stripped_string types (Tag n a cs) = []"

definition get_text :: "node \<Rightarrow> string" where
  \<comment> \<open>\<open>tag.get_text(strip=True)\<close>: \<open>''.join\<close> of the stripped strings\<close>
  "get_text e =
     concat (concat (map (stripped_string (interesting_string_types e)) (descendants e)))"

definition trimmed_text :: "node \<Rightarrow> string" where
  \<comment> \<open>The words of the specification, not a function of the program: "that tag's trimmed
      text" is the text of the tag, its strings joined as they stand, with the white
      space at both ends removed (\<open>tag.get_text().strip()\<close>).\<close>
  "trimmed_text e =
     strip (concat (map (\<lambda>x. case x of
                               Text c s \<Rightarrow> if c \<in> set (interesting_string_types e) then s else []
                             | Tag n a cs \<Rightarrow> [])
                        (descendants e)))"

section \<open>Extracting one listing\<close>

text \<open>
  \<open>job_data\<close> is the dictionary \<open>extract_job_info\<close> fills: an association list in
  insertion order, written with \<^const>\<open>AList.update\<close> (a new key goes to the end, an
  old key keeps its place) and read with \<^const>\<open>map_of\<close>.
\<close>

type_synonym job_data = "(string \<times> string) list"

datatype exn =
    AttributeError | KeyError | OSError
  | Other string   \<comment> \<open>an exception of another class, by the name of the class\<close>

datatype verify =
    Bundle      \<comment> \<open>\<open>verify=certifi.where()\<close>\<close>
  | Flag bool   \<comment> \<open>\<open>verify=True\<close> or \<open>verify=False\<close>\<close>

text \<open>
  What a run does to the outside world, in order: the requests it sends, the lines it
  prints and the file it writes. A print of a literal text is \<open>Print\<close> of that text;
  each formatted print has a constructor of its own.
\<close>

datatype event =
    Request string verify        \<comment> \<open>\<open>requests.get(url, headers=headers, timeout=10, verify=...)\<close>\<close>
  | Print string
  | Print_ssl_error              \<comment> \<open>\<open>f"SSL verification error: {ssl_error}"\<close>\<close>
  | Print_fetch_error            \<comment> \<open>\<open>f"Error fetching page: {e}"\<close>\<close>
  | Print_retry_error            \<comment> \<open>\<open>f"Error fetching page even without SSL verification: {e}"\<close>\<close>
  | Print_fetching string        \<comment> \<open>\<open>f"Fetching job listings from {url}..."\<close>\<close>
  | Print_found nat              \<comment> \<open>\<open>f"Found {len(job_elements)} potential job listings."\<close>\<close>
  | Print_extract_error exn      \<comment> \<open>\<open>f"Error extracting job info: {e}"\<close>\<close>
  | Print_scraped nat            \<comment> \<open>\<open>f"\nSuccessfully scraped {len(df)} job listings!"\<close>\<close>
  | Print_saved string           \<comment> \<open>\<open>f"Results saved to: {output_file}"\<close>\<close>
  | Print_head "job_data list"   \<comment> \<open>\<open>print(df.head().to_string(index=False))\<close>\<close>
  | To_csv string "job_data list"  \<comment> \<open>\<open>df.to_csv(output_file, ...)\<close>\<close>

fun truthy :: "node option \<Rightarrow> bool" where
  \<comment> \<open>Python's truth value of a search result: \<open>None\<close> and the empty string are false,
      a tag is always true\<close>
  "truthy None = False"
| "truthy (Some (Tag n a cs)) = True"
| "truthy (Some (Text c s)) = (s \<noteq> [])"

definition py_or :: "node option \<Rightarrow> node option \<Rightarrow> node option" where
  \<comment> \<open>\<open>a or b\<close>\<close>
  "py_or a b = (if truthy a then a else b)"

fun get_attr :: "node \<Rightarrow> string \<Rightarrow> string option" where
  \<comment> \<open>\<open>tag.get(k)\<close> for a single-valued attribute (\<open>href\<close>, \<open>datetime\<close>)\<close>
  "get_attr (Tag n a cs) k = attr_written a k"
| "get_attr (Text c s) k = None"

definition title_pattern :: pattern where
  "title_pattern = Alt_I [''title'', ''heading'', ''name'']"

definition location_pattern :: pattern where
  "location_pattern = Alt_I [''location'', ''place'', ''city'']"

definition location_text_pattern :: pattern where
  "location_text_pattern = Alt_I [''Location'', ''City'', ''Place'']"

definition date_pattern :: pattern where
  "date_pattern = Alt_I [''date'', ''published'', ''post'']"

definition title_elem :: "node \<Rightarrow> node option" where
  "title_elem job_element =
     py_or (find_tag ''h4'' [] job_element)
    (py_or (find_tag ''h3'' [] job_element)
    (py_or (find_tag ''h2'' [] job_element)
    (py_or (find_tag ''a'' [(''class'', MRe title_pattern)] job_element)
           (find_tag ''span'' [(''class'', MRe title_pattern)] job_element))))"

definition title_fallback :: "node \<Rightarrow> job_data \<Rightarrow> job_data option" where
  \<comment> \<open>the text of the first link, or \<open>return None\<close>\<close>
  "title_fallback job_element job_data =
     (case find_tag ''a'' [] job_element of
        Some link_elem \<Rightarrow>
          if truthy (Some link_elem)
          then Some (AList.update ''Job Title'' (get_text link_elem) job_data)
          else None
      | None \<Rightarrow> None)"

definition set_title :: "node \<Rightarrow> job_data \<Rightarrow> job_data option" where
  "set_title job_element job_data =
     (case title_elem job_element of
        Some t \<Rightarrow>
          if truthy (Some t)
          then Some (AList.update ''Job Title'' (get_text t) job_data)
          else title_fallback job_element job_data
      | None \<Rightarrow> title_fallback job_element job_data)"

definition location_elem :: "node \<Rightarrow> node option" where
  "location_elem job_element =
     py_or (find_tag ''span'' [(''class'', MRe location_pattern)] job_element)
    (py_or (find_tag ''div'' [(''class'', MRe location_pattern)] job_element)
           (find_text location_text_pattern job_element))"

fun elem_text :: "node \<Rightarrow> string" where
  \<comment> \<open>\<open>x.strip() if isinstance(x, str) else x.get_text(strip=True)\<close>\<close>
  "elem_text (Tag n a cs) = get_text (Tag n a cs)"
| "elem_text (Text c s) = strip s"

definition set_location :: "node \<Rightarrow> job_data \<Rightarrow> job_data" where
  "set_location job_element job_data =
     (case location_elem job_element of
        Some l \<Rightarrow>
          if truthy (Some l)
          then AList.update ''Location'' (elem_text l) job_data
          else AList.update ''Location'' ''Not specified'' job_data
      | None \<Rightarrow> AList.update ''Location'' ''Not specified'' job_data)"

definition date_elem :: "node \<Rightarrow> node option" where
  "date_elem job_element =
     py_or (find_tag ''span'' [(''class'', MRe date_pattern)] job_element)
    (py_or (find_tag ''div'' [(''class'', MRe date_pattern)] job_element)
    (py_or (find_tag ''time'' [] job_element)
           (find_text Date_I job_element)))"

fun set_date_from :: "node \<Rightarrow> job_data \<Rightarrow> job_data" where
  \<comment> \<open>the branch taken when \<open>date_elem\<close> is true: a string is stripped; a tag gives its
      text, which a non-empty \<open>datetime\<close> attribute then replaces\<close>
  "set_date_from (Tag n a cs) job_data =
     (let job_data' = AList.update ''Post/Publish Date'' (get_text (Tag n a cs)) job_data
      in case get_attr (Tag n a cs) ''datetime'' of
           Some v \<Rightarrow> if v \<noteq> [] then AList.update ''Post/Publish Date'' v job_data' else job_data'
         | None \<Rightarrow> job_data')"
| "set_date_from (Text c s) job_data = AList.update ''Post/Publish Date'' (strip s) job_data"

definition set_date :: "node \<Rightarrow> job_data \<Rightarrow> job_data" where
  "set_date job_element job_data =
     (case date_elem job_element of
        Some d \<Rightarrow>
          if truthy (Some d)
          then set_date_from d job_data
          else AList.update ''Post/Publish Date'' ''Not specified'' job_data
      | None \<Rightarrow> AList.update ''Post/Publish Date'' ''Not specified'' job_data)"

definition absolute_link :: "string \<Rightarrow> string \<Rightarrow> string" where
  \<comment> \<open>the value stored for a link found in the listing\<close>
  "absolute_link base_url link =
     (if startswith link ''/'' then base_url @ link
      else if startswith link ''http'' then link
      else base_url @ ''/'' @ link)"

definition set_link :: "string \<Rightarrow> node \<Rightarrow> job_data \<Rightarrow> job_data" where
  "set_link base_url job_element job_data =
     (case find_tag ''a'' [(''href'', MTrue)] job_element of
        Some link_elem \<Rightarrow>
          if truthy (Some link_elem)
          then (let link = (case get_attr link_elem ''href'' of Some h \<Rightarrow> h | None \<Rightarrow> [])
                in AList.update ''Link to Detailed Job Page'' (absolute_link base_url link) job_data)
          else AList.update ''Link to Detailed Job Page'' ''Not available'' job_data
      | None \<Rightarrow> AList.update ''Link to Detailed Job Page'' ''Not available'' job_data)"

fun extract_job_body :: "string \<Rightarrow> node \<Rightarrow> exn + job_data option" where
  \<comment> \<open>the body of the \<open>try\<close>. On a tag it runs through. A string has no \<open>find\<close> of
      Beautiful Soup's but \<open>str.find\<close>, which returns a position: of \<open>find('h4')\<close> and
      \<open>find('h3')\<close> one is not 0, so \<open>title_elem\<close> is a non-zero integer, and
      \<open>title_elem.get_text\<close> raises \<open>AttributeError\<close>.\<close>
  "extract_job_body base_url (Tag n a cs) =
     Inr (case set_title (Tag n a cs) [] of
            None \<Rightarrow> None
          | Some job_data \<Rightarrow>
              Some (set_link base_url (Tag n a cs)
                     (set_date (Tag n a cs)
                       (set_location (Tag n a cs) job_data))))"
| "extract_job_body base_url (Text c s) = Inl AttributeError"

definition extract_job_info :: "string \<Rightarrow> node \<Rightarrow> job_data option \<times> event list" where
  \<comment> \<open>the result, and what the call printed\<close>
  "extract_job_info base_url job_element =
     (case extract_job_body base_url job_element of
        Inr result \<Rightarrow> (result, [])
      | Inl e \<Rightarrow> (None, [Print_extract_error e]))"

section \<open>Fetching the page\<close>

datatype request_exn =
    SSLError            \<comment> \<open>\<open>requests.exceptions.SSLError\<close>\<close>
  | RequestException    \<comment> \<open>any other \<open>requests.RequestException\<close>\<close>

datatype reply =
    Reply nat node      \<comment> \<open>a response: its status code and the document parsed from its content\<close>
  | Fails request_exn   \<comment> \<open>\<open>requests.get\<close> raises\<close>

text \<open>
  The network is a parameter: \<open>net k url v\<close> is what the \<open>k\<close>-th call of
  \<open>requests.get\<close> of a run does (counting from 0) when asked for \<open>url\<close> with
  \<open>verify=v\<close>.
\<close>

type_synonym network = "nat \<Rightarrow> string \<Rightarrow> verify \<Rightarrow> reply"

fun fetch :: "reply \<Rightarrow> request_exn + node" where
  \<comment> \<open>\<open>requests.get(...)\<close>, \<open>response.raise_for_status()\<close> (an \<open>HTTPError\<close>, which is a
      \<open>RequestException\<close>, for a status from 400 to 599) and
      \<open>BeautifulSoup(response.content, 'html.parser')\<close>\<close>
  "fetch (Fails x) = Inl x"
| "fetch (Reply status doc) =
     (if 400 \<le> status \<and> status < 600 then Inl RequestException else Inr doc)"

definition get_page_content ::
  "network \<Rightarrow> bool \<Rightarrow> string \<Rightarrow> bool \<Rightarrow> node option \<times> event list" where
  \<comment> \<open>\<open>get_page_content(url, verify_ssl=verify_ssl)\<close> with \<open>CERTIFI_AVAILABLE\<close> as given:
      the document or \<open>None\<close>, and the requests and prints of the call\<close>
  "get_page_content net certifi_available url verify_ssl =
     (let v = (if certifi_available \<and> verify_ssl then Bundle else Flag verify_ssl)
      in case fetch (net 0 url v) of
           Inr soup \<Rightarrow> (Some soup, [Request url v])
         | Inl SSLError \<Rightarrow>
             if verify_ssl
             then (case fetch (net 1 url (Flag False)) of
                     Inr soup \<Rightarrow>
                       (Some soup,
                        [Request url v, Print_ssl_error,
                         Print ''Retrying without SSL verification...'',
                         Print ''Warning: SSL verification is disabled. This is less secure but may be necessary on some systems.'',
                         Request url (Flag False)])
                   | Inl e \<Rightarrow>
                       (None,
                        [Request url v, Print_ssl_error,
                         Print ''Retrying without SSL verification...'',
                         Print ''Warning: SSL verification is disabled. This is less secure but may be necessary on some systems.'',
                         Request url (Flag False), Print_retry_error]))
             else (None, [Request url v, Print_ssl_error, Print_fetch_error])
         | Inl RequestException \<Rightarrow> (None, [Request url v, Print_fetch_error]))"

fun requests_sent :: "event list \<Rightarrow> (string \<times> verify) list" where
  \<comment> \<open>the requests among the events, in order\<close>
  "requests_sent [] = []"
| "requests_sent (Request url v # es) = (url, v) # requests_sent es"
| "requests_sent (e # es) = requests_sent es"

section \<open>Finding the listings\<close>

fun descendants_in :: "node list \<Rightarrow> node \<Rightarrow> (node \<times> node list) list" where
  \<comment> \<open>every node below the tag, in document order, each with its \<open>parents\<close> (nearest
      first); the first argument holds the parents of the tag itself\<close>
  "descendants_in ps (Tag n a cs) =
     concat (map (\<lambda>c. (c, Tag n a cs # ps) # descendants_in (Tag n a cs # ps) c) cs)"
| "descendants_in ps (Text c s) = []"

definition find_tag_in ::
  "string \<Rightarrow> (string \<times> match_against) list \<Rightarrow> node list \<Rightarrow> node \<Rightarrow> (node \<times> node list) option" where
  \<comment> \<open>\<open>find\<close>, keeping the parents of what it finds\<close>
  "find_tag_in name rules ps e =
     List.find (\<lambda>(t, _). search_tag name rules t) (descendants_in ps e)"

definition find_all_in ::
  "string \<Rightarrow> (string \<times> match_against) list \<Rightarrow> node list \<Rightarrow> node \<Rightarrow> (node \<times> node list) list" where
  \<comment> \<open>\<open>find_all\<close>, keeping the parents of what it finds\<close>
  "find_all_in name rules ps e =
     filter (\<lambda>(t, _). search_tag name rules t) (descendants_in ps e)"

definition container_pattern :: pattern where
  "container_pattern = Alt_I [''recruit'', ''job'', ''vacancy'', ''opening'']"

definition listing_pattern :: pattern where
  "listing_pattern = Alt_I [''recruitment'', ''job'', ''vacancy'', ''opening'', ''listing'']"

definition possible_containers :: "node \<Rightarrow> (node \<times> node list) option list" where
  "possible_containers soup =
     [find_tag_in ''div'' [(''class'', MRe container_pattern)] [] soup,
      find_tag_in ''section'' [(''class'', MRe container_pattern)] [] soup,
      find_tag_in ''ul'' [(''class'', MRe container_pattern)] [] soup,
      find_tag_in ''div'' [(''id'', MRe container_pattern)] [] soup,
      find_tag_in ''div'' [(''class'', MStr ''other_recruitments'')] [] soup,
      find_tag_in ''div'' [(''class'', MStr ''recruitment-list'')] [] soup]"

fun first_container :: "(node \<times> node list) option list \<Rightarrow> (node \<times> node list) option" where
  \<comment> \<open>the loop over \<open>possible_containers\<close>: the first one that is true\<close>
  "first_container [] = None"
| "first_container (c # cs) =
     (case c of
        Some (t, ps) \<Rightarrow> if truthy (Some t) then Some (t, ps) else first_container cs
      | None \<Rightarrow> first_container cs)"

definition job_selectors :: "node \<Rightarrow> node list list" where
  "job_selectors job_container =
     [find_all ''div'' [(''class'', MRe listing_pattern)] job_container,
      find_all ''li'' [(''class'', MRe listing_pattern)] job_container,
      find_all ''article'' [(''class'', MRe listing_pattern)] job_container,
      find_all ''div'' [(''class'', MStr ''recruitment'')] job_container,
      find_all ''div'' [(''class'', MStr ''job-item'')] job_container]"

fun first_selector :: "node list list \<Rightarrow> node list" where
  \<comment> \<open>the loop over \<open>job_selectors\<close>: the first list that is not empty\<close>
  "first_selector [] = []"
| "first_selector (s # ss) = (if s \<noteq> [] then s else first_selector ss)"

fun is_named :: "string list \<Rightarrow> node \<Rightarrow> bool" where
  "is_named names (Tag n a cs) = (n \<in> set names)"
| "is_named names (Text c s) = False"

definition attrs_eq :: "string \<Rightarrow> (string \<times> string) list \<Rightarrow> (string \<times> string) list \<Rightarrow> bool" where
  \<comment> \<open>\<open>self.attrs == other.attrs\<close> for two tags of this name: the dictionaries have the
      same keys with the same values\<close>
  "attrs_eq tag_name a b =
     list_all (\<lambda>k. attr_value tag_name a k = attr_value tag_name b k) (map fst a @ map fst b)"

fun py_eq :: "node \<Rightarrow> node \<Rightarrow> bool"
  and py_eq_list :: "node list \<Rightarrow> node list \<Rightarrow> bool" where
  \<comment> \<open>\<open>x == y\<close>. \<open>Tag.__eq__\<close> compares name, attributes, number of children and the
      children in turn, not identity; strings of any class compare as \<open>str\<close>; a tag
      and a string are never equal.\<close>
  "py_eq (Tag n a cs) (Tag m b ds) = (n = m \<and> attrs_eq n a b \<and> py_eq_list cs ds)"
| "py_eq (Text c s) (Text d t) = (s = t)"
| "py_eq (Tag n a cs) (Text d t) = False"
| "py_eq (Text c s) (Tag m b ds) = False"
| "py_eq_list [] [] = True"
| "py_eq_list (x # xs) (y # ys) = (py_eq x y \<and> py_eq_list xs ys)"
| "py_eq_list [] (y # ys) = False"
| "py_eq_list (x # xs) [] = False"

definition find_parent :: "string list \<Rightarrow> node list \<Rightarrow> node option" where
  \<comment> \<open>\<open>link.find_parent(names)\<close>, from the parents of the link\<close>
  "find_parent names ps = List.find (is_named names) ps"

definition link_keywords :: "string list" where
  "link_keywords = [''recruitment'', ''job'', ''vacancy'', ''notification'', ''cwe'', ''exam'']"

fun links_to_elements :: "(node \<times> node list) list \<Rightarrow> node list \<Rightarrow> node list" where
  \<comment> \<open>the loop over \<open>all_links\<close>, the second argument being \<open>job_elements\<close> so far;
      \<open>parent in job_elements\<close> holds when \<open>parent\<close> equals one of them\<close>
  "links_to_elements [] job_elements = job_elements"
| "links_to_elements ((link, ps) # all_links) job_elements =
     (let href = lower (case get_attr link ''href'' of Some h \<Rightarrow> h | None \<Rightarrow> []);
          text = lower (get_text link)
      in if list_ex (\<lambda>keyword. str_in keyword href \<or> str_in keyword text) link_keywords
         then (case find_parent [''div'', ''li'', ''article'', ''tr''] ps of
                 Some parent \<Rightarrow>
                   if truthy (Some parent) \<and> \<not> list_ex (py_eq parent) job_elements
                   then links_to_elements all_links (job_elements @ [parent])
                   else links_to_elements all_links job_elements
               | None \<Rightarrow> links_to_elements all_links job_elements)
         else links_to_elements all_links job_elements)"

definition find_job_elements :: "node \<Rightarrow> node list \<times> event list" where
  \<comment> \<open>from the fetched document to \<open>job_elements\<close>, with what is printed on the way\<close>
  "find_job_elements soup =
     (let found = first_container (possible_containers soup);
          out1 = (if found = None
                  then [Print ''Could not find job listings container. Trying alternative approach...'']
                  else []);
          (job_container, ps) = (case found of Some c \<Rightarrow> c | None \<Rightarrow> (soup, []));
          selected = first_selector (job_selectors job_container);
          out2 = (if selected = []
                  then [Print ''Trying to find job listings by link patterns...'']
                  else []);
          job_elements =
            (if selected = []
             then links_to_elements (find_all_in ''a'' [(''href'', MTrue)] ps job_container) []
             else selected)
      in (job_elements, out1 @ out2 @ [Print_found (length job_elements)]))"

section \<open>The run\<close>

definition default_base_url :: string where
  \<comment> \<open>the default of \<open>base_url\<close>, which \<open>scrape_ibps_jobs\<close> never overrides\<close>
  "default_base_url = ''https://www.ibps.in''"

definition exclude_keywords :: "string list" where
  "exclude_keywords = [''view all'', ''all'', ''recruitment exams'', ''personnel selection services'']"

type_synonym loop_state = "job_data list \<times> event list"

definition loop_body :: "node \<Rightarrow> loop_state \<Rightarrow> exn + loop_state" where
  \<comment> \<open>one turn of the loop over \<open>job_elements\<close>, on \<open>jobs\<close> and the output so far.
      \<open>job_info['Job Title']\<close> is outside any \<open>try\<close>: a missing key would end the run
      with \<open>KeyError\<close>.\<close>
  "loop_body job_elem st =
     (case st of (jobs, out) \<Rightarrow>
       (case extract_job_info default_base_url job_elem of (job_info, printed) \<Rightarrow>
         (case job_info of
            None \<Rightarrow> Inr (jobs, out @ printed)
          | Some d \<Rightarrow>
              if d = [] then Inr (jobs, out @ printed)
              else (case map_of d ''Job Title'' of
                      None \<Rightarrow> Inl KeyError
                    | Some title \<Rightarrow>
                        if title = [] then Inr (jobs, out @ printed)
                        else (let title_lower = strip (lower title)
                              in if \<not> list_ex (\<lambda>keyword. str_in keyword title_lower)
                                        exclude_keywords
                                 then (if length title < 100
                                       then Inr (jobs @ [d], out @ printed)
                                       else Inr (jobs, out @ printed))
                                 else Inr (jobs, out @ printed))))))"

fun extract_loop :: "node list \<Rightarrow> loop_state \<Rightarrow> exn + loop_state" where
  \<comment> \<open>\<open>for job_elem in job_elements: ...\<close>\<close>
  "extract_loop [] st = Inr st"
| "extract_loop (job_elem # job_elements) st =
     (case loop_body job_elem st of
        Inl e \<Rightarrow> Inl e
      | Inr st' \<Rightarrow> extract_loop job_elements st')"

fun drop_duplicates :: "string list \<Rightarrow> job_data list \<Rightarrow> job_data list" where
  \<comment> \<open>\<open>df.drop_duplicates(subset=cols, keep='first')\<close> on the rows of the frame: a row
      goes when an earlier row has the same values in the columns \<open>cols\<close>\<close>
  "drop_duplicates cols [] = []"
| "drop_duplicates cols (r # rs) =
     r # drop_duplicates cols
           (filter (\<lambda>r'. map (map_of r') cols \<noteq> map (map_of r) cols) rs)"

definition no_jobs_guidance :: "event list" where
  "no_jobs_guidance =
     [Print (CHR 0x0A # ''No jobs found. This could mean:''),
      Print ''1. The website structure has changed'',
      Print ''2. There are currently no job listings'',
      Print ''3. The page requires JavaScript to load content'',
      Print (CHR 0x0A # ''Please inspect the website manually and update the selectors in the script.''),
      Print (CHR 0x0A # ''You can save the HTML of the page and check its structure:''),
      Print ''  - Right-click on the page -> Inspect Element'',
      Print ''  - Look for the container holding job listings'',
      Print ''  - Note the class names and HTML structure'']"

definition save_jobs :: "(string \<Rightarrow> bool) \<Rightarrow> string \<Rightarrow> job_data list \<Rightarrow> exn + event list" where
  \<comment> \<open>the end of \<open>scrape_ibps_jobs\<close>, from \<open>if not jobs:\<close> on. \<open>df.to_csv\<close> opens the
      output file for writing: where that cannot be done (\<open>writable\<close> says where it can)
      it raises an \<open>OSError\<close>, which nothing catches.\<close>
  "save_jobs writable output_file jobs =
     (if jobs = [] then Inr no_jobs_guidance
      else (let df = drop_duplicates [''Job Title'', ''Link to Detailed Job Page''] jobs
            in if writable output_file
               then Inr [To_csv output_file df, Print_scraped (length df),
                         Print_saved output_file,
                         Print (CHR 0x0A # ''First few listings:''), Print_head (take 5 df)]
               else Inl OSError))"

definition scrape_ibps_jobs ::
  "network \<Rightarrow> (string \<Rightarrow> bool) \<Rightarrow> bool \<Rightarrow> string \<Rightarrow> string \<Rightarrow> bool \<Rightarrow> exn + event list" where
  \<comment> \<open>\<open>scrape_ibps_jobs(url, output_file, verify_ssl)\<close>: everything the run does, or the
      exception that ends it\<close>
  "scrape_ibps_jobs net writable certifi_available url output_file verify_ssl =
     (case get_page_content net certifi_available url verify_ssl of
        (None, fetched) \<Rightarrow>
          Inr (Print_fetching url # fetched @
               [Print ''Failed to fetch the page. Please check your internet connection and try again.''])
      | (Some soup, fetched) \<Rightarrow>
          (case find_job_elements soup of (job_elements, found) \<Rightarrow>
            (case extract_loop job_elements ([], []) of
               Inl e \<Rightarrow> Inl e
             | Inr (jobs, printed) \<Rightarrow>
                 (case save_jobs writable output_file jobs of
                    Inl e \<Rightarrow> Inl e
                  | Inr saved \<Rightarrow>
                      Inr (Print_fetching url # fetched @ found @ printed @ saved)))))"

section \<open>When a call into the library raises\<close>

text \<open>
  The definitions above take Beautiful Soup at its word: on a tag, none of the calls in
  the \<open>try\<close> block of \<open>extract_job_info\<close> raises. The block is there for the case that
  one does. (One case: in the releases of Beautiful Soup that deprecate the \<open>text\<close>
  argument of \<open>find\<close>, and with Python's warnings turned into errors,
  \<open>find(text=...)\<close> raises a \<open>DeprecationWarning\<close>, in just the elements in which the
  searches before it in the \<open>or\<close> chain find nothing.) What follows is the same program
  with that case as a parameter: \<open>faults job_element\<close> is the exception that a call in
  the \<open>try\<close> block raises on the element, if one does. With no faults these are the
  functions above.
\<close>

type_synonym faults = "node \<Rightarrow> exn option"

definition extract_job_body_with :: "faults \<Rightarrow> string \<Rightarrow> node \<Rightarrow> exn + job_data option" where
  "extract_job_body_with faults base_url job_element =
     (case faults job_element of
        Some e \<Rightarrow> Inl e
      | None \<Rightarrow> extract_job_body base_url job_element)"

definition extract_job_info_with ::
  "faults \<Rightarrow> string \<Rightarrow> node \<Rightarrow> job_data option \<times> event list" where
  "extract_job_info_with faults base_url job_element =
     (case extract_job_body_with faults base_url job_element of
        Inr result \<Rightarrow> (result, [])
      | Inl e \<Rightarrow> (None, [Print_extract_error e]))"

definition loop_body_with :: "faults \<Rightarrow> node \<Rightarrow> loop_state \<Rightarrow> exn + loop_state" where
  "loop_body_with faults job_elem st =
     (case st of (jobs, out) \<Rightarrow>
       (case extract_job_info_with faults default_base_url job_elem of (job_info, printed) \<Rightarrow>
         (case job_info of
            None \<Rightarrow> Inr (jobs, out @ printed)
          | Some d \<Rightarrow>
              if d = [] then Inr (jobs, out @ printed)
              else (case map_of d ''Job Title'' of
                      None \<Rightarrow> Inl KeyError
                    | Some title \<Rightarrow>
                        if title = [] then Inr (jobs, out @ printed)
                        else (let title_lower = strip (lower title)
                              in if \<not> list_ex (\<lambda>keyword. str_in keyword title_lower)
                                        exclude_keywords
                                 then (if length title < 100
                                       then Inr (jobs @ [d], out @ printed)
                                       else Inr (jobs, out @ printed))
                                 else Inr (jobs, out @ printed))))))"

fun extract_loop_with :: "faults \<Rightarrow> node list \<Rightarrow> loop_state \<Rightarrow> exn + loop_state" where
  "extract_loop_with faults [] st = Inr st"
| "extract_loop_with faults (job_elem # job_elements) st =
     (case loop_body_with faults job_elem st of
        Inl e \<Rightarrow> Inl e
      | Inr st' \<Rightarrow> extract_loop_with faults job_elements st')"

definition scrape_ibps_jobs_with ::
  "faults \<Rightarrow> network \<Rightarrow> (string \<Rightarrow> bool) \<Rightarrow> bool \<Rightarrow> string \<Rightarrow> string \<Rightarrow> bool \<Rightarrow>
   exn + event list" where
  "scrape_ibps_jobs_with faults net writable certifi_available url output_file verify_ssl =
     (case get_page_content net certifi_available url verify_ssl of
        (None, fetched) \<Rightarrow>
          Inr (Print_fetching url # fetched @
               [Print ''Failed to fetch the page. Please check your internet connection and try again.''])
      | (Some soup, fetched) \<Rightarrow>
          (case find_job_elements soup of (job_elements, found) \<Rightarrow>
            (case extract_loop_with faults job_elements ([], []) of
               Inl e \<Rightarrow> Inl e
             | Inr (jobs, printed) \<Rightarrow>
                 (case save_jobs writable output_file jobs of
                    Inl e \<Rightarrow> Inl e
                  | Inr saved \<Rightarrow>
                      Inr (Print_fetching url # fetched @ found @ printed @ saved)))))"

section \<open>Substrings, stripping and the text of a tag\<close>

lemma str_in_iff: "str_in sub s \<longleftrightarrow> (\<exists>ps ss. s = ps @ sub @ ss)"
proof (induction s)
  case Nil
  show ?case by auto
next
  case (Cons c cs)
  show ?case
  proof
    assume "str_in sub (c # cs)"
    then consider "prefix sub (c # cs)" | "str_in sub cs" by auto
    then show "\<exists>ps ss. c # cs = ps @ sub @ ss"
    proof cases
      case 1
      then obtain ss where "c # cs = sub @ ss" unfolding prefix_def by blast
      then have "c # cs = [] @ sub @ ss" by simp
      then show ?thesis by blast
    next
      case 2
      with Cons.IH obtain ps ss where "cs = ps @ sub @ ss" by blast
      then have "c # cs = (c # ps) @ sub @ ss" by simp
      then show ?thesis by blast
    qed
  next
    assume "\<exists>ps ss. c # cs = ps @ sub @ ss"
    then obtain ps ss where eq: "c # cs = ps @ sub @ ss" by blast
    show "str_in sub (c # cs)"
    proof (cases ps)
      case Nil
      with eq have "prefix sub (c # cs)" unfolding prefix_def by auto
      then show ?thesis by simp
    next
      case (Cons p ps')
      with eq have "cs = ps' @ sub @ ss" by simp
      with Cons.IH have "str_in sub cs" by blast
      then show ?thesis by simp
    qed
  qed
qed

lemma strip_decomp:
  "\<exists>l r. s = l @ strip s @ r \<and> (\<forall>c\<in>set l. is_space c) \<and> (\<forall>c\<in>set r. is_space c) \<and>
     (strip s = [] \<or> \<not> is_space (hd (strip s)) \<and> \<not> is_space (last (strip s)))"
proof -
  define l where "l = takeWhile is_space s"
  define m where "m = dropWhile is_space s"
  define r where "r = rev (takeWhile is_space (rev m))"
  define t where "t = rev (dropWhile is_space (rev m))"
  have st: "strip s = t" by (simp add: strip_def t_def m_def)
  have "m = rev (rev m)" by simp
  also have "\<dots> = rev (takeWhile is_space (rev m) @ dropWhile is_space (rev m))"
    by (simp only: takeWhile_dropWhile_id)
  also have "\<dots> = t @ r" unfolding t_def r_def by (rule rev_append)
  finally have m: "m = t @ r" .
  have "s = l @ m" unfolding l_def m_def by simp
  with m have s: "s = l @ t @ r" by simp
  have l: "\<forall>c\<in>set l. is_space c" unfolding l_def by (auto dest: set_takeWhileD)
  have r: "\<forall>c\<in>set r. is_space c" unfolding r_def by (auto dest: set_takeWhileD)
  have e: "t = [] \<or> \<not> is_space (hd t) \<and> \<not> is_space (last t)"
  proof (cases "t = []")
    case True
    then show ?thesis by simp
  next
    case False
    then have ne: "dropWhile is_space (rev m) \<noteq> []" unfolding t_def by simp
    then have "\<not> is_space (hd (dropWhile is_space (rev m)))" by (rule hd_dropWhile)
    with ne have 1: "\<not> is_space (last t)" unfolding t_def by (simp add: last_rev)
    from False m have "m \<noteq> []" by simp
    then have "dropWhile is_space s \<noteq> []" unfolding m_def .
    then have "\<not> is_space (hd (dropWhile is_space s))" by (rule hd_dropWhile)
    then have "\<not> is_space (hd m)" unfolding m_def .
    moreover from False m have "hd m = hd t" by simp
    ultimately have "\<not> is_space (hd t)" by simp
    with 1 show ?thesis by simp
  qed
  from s l r e show ?thesis unfolding st by blast
qed

lemma stripped_strings_default:
  "concat (map (stripped_string [NavigableString, CData]) xs) =
     [strip s. Text c s \<leftarrow> xs, c = NavigableString \<or> c = CData, strip s \<noteq> []]"
  by (induction xs) (auto split: node.splits)

lemma get_text_default:
  assumes "map_of string_containers n = None"
  shows "get_text (Tag n a cs) =
           concat [strip s. Text c s \<leftarrow> descendants (Tag n a cs),
                            c = NavigableString \<or> c = CData, strip s \<noteq> []]"
  using assms unfolding get_text_def by (simp only: interesting_string_types.simps option.case stripped_strings_default)

lemma get_text_single_string:
  assumes "map_of string_containers n = None"
  shows "get_text (Tag n a [Text NavigableString s]) = strip s"
  using assms by (simp add: get_text_def)

section \<open>What the searches return\<close>

lemma search_tag_Tag: "search_tag nm rs t \<Longrightarrow> \<exists>n a cs. t = Tag n a cs"
  by (cases t) simp_all

lemma find_tag_Some_iff:
  "find_tag nm rs e = Some t \<longleftrightarrow>
     (\<exists>i<length (descendants e). descendants e ! i = t \<and> search_tag nm rs t \<and>
        (\<forall>j<i. \<not> search_tag nm rs (descendants e ! j)))"
  unfolding find_tag_def find_Some_iff by blast

lemma find_tag_None_iff:
  "find_tag nm rs e = None \<longleftrightarrow> (\<forall>t\<in>set (descendants e). \<not> search_tag nm rs t)"
  unfolding find_tag_def find_None_iff by blast

lemma find_text_None_iff:
  "find_text p e = None \<longleftrightarrow> (\<forall>t\<in>set (descendants e). \<not> search_text p t)"
  unfolding find_text_def find_None_iff by blast

lemma find_tag_Some_Tag: "find_tag nm rs e = Some t \<Longrightarrow> \<exists>n a cs. t = Tag n a cs"
  unfolding find_tag_Some_iff using search_tag_Tag by blast

lemma find_tag_truthy: "truthy (find_tag nm rs e) \<longleftrightarrow> find_tag nm rs e \<noteq> None"
proof (cases "find_tag nm rs e")
  case None
  then show ?thesis by simp
next
  case (Some t)
  then show ?thesis using find_tag_Some_Tag [OF Some] by auto
qed

lemma py_or_find_tag:
  "py_or (find_tag nm rs e) b = (case find_tag nm rs e of Some t \<Rightarrow> Some t | None \<Rightarrow> b)"
  unfolding py_or_def find_tag_truthy by (simp split: option.splits)

lemma py_or_None: "py_or None b = b"
  by (simp add: py_or_def)

section \<open>The fields of an extracted record\<close>

lemma title_elem_Tag: "title_elem e = Some t \<Longrightarrow> \<exists>n a cs. t = Tag n a cs"
  unfolding title_elem_def py_or_find_tag
  by (auto split: option.splits dest: find_tag_Some_Tag)

lemma set_title_eq:
  "set_title e d =
     (case title_elem e of
        Some t \<Rightarrow> Some (AList.update ''Job Title'' (get_text t) d)
      | None \<Rightarrow> (case find_tag ''a'' [] e of
                   Some l \<Rightarrow> Some (AList.update ''Job Title'' (get_text l) d)
                 | None \<Rightarrow> None))"
  unfolding set_title_def title_fallback_def
  by (auto split: option.splits dest: title_elem_Tag find_tag_Some_Tag)

lemma set_location_upd: "\<exists>v. \<forall>d. set_location e d = AList.update ''Location'' v d"
proof (cases "location_elem e")
  case None
  then show ?thesis unfolding set_location_def by auto
next
  case (Some l)
  then show ?thesis unfolding set_location_def by (cases "truthy (Some l)") auto
qed

lemma set_date_from_upd: "\<exists>v. \<forall>d. set_date_from x d = AList.update ''Post/Publish Date'' v d"
proof (cases x)
  case (Tag n a cs)
  show ?thesis
  proof (cases "attr_written a ''datetime''")
    case None
    with Tag show ?thesis by auto
  next
    case (Some v)
    with Tag show ?thesis by (cases "v = []") auto
  qed
qed auto

lemma set_date_upd: "\<exists>v. \<forall>d. set_date e d = AList.update ''Post/Publish Date'' v d"
proof (cases "date_elem e")
  case None
  then show ?thesis unfolding set_date_def by auto
next
  case (Some x)
  then show ?thesis unfolding set_date_def
    using set_date_from_upd [of x] by (cases "truthy (Some x)") auto
qed

lemma set_link_upd: "\<exists>v. \<forall>d. set_link b e d = AList.update ''Link to Detailed Job Page'' v d"
proof (cases "find_tag ''a'' [(''href'', MTrue)] e")
  case None
  then show ?thesis unfolding set_link_def by auto
next
  case (Some l)
  then show ?thesis unfolding set_link_def by (cases "truthy (Some l)") (auto simp: Let_def)
qed

lemma set_title_upd: "set_title e d = Some d' \<Longrightarrow> \<exists>v. \<forall>d. set_title e d = Some (AList.update ''Job Title'' v d)"
  unfolding set_title_eq by (auto split: option.splits)

lemma extract_job_info_Some:
  assumes "fst (extract_job_info b e) = Some d"
  shows "\<exists>t l dt lk.
           d = [(''Job Title'', t), (''Location'', l), (''Post/Publish Date'', dt),
                (''Link to Detailed Job Page'', lk)] \<and>
           set_title e [] = Some [(''Job Title'', t)] \<and>
           set_location e [] = [(''Location'', l)] \<and>
           set_date e [] = [(''Post/Publish Date'', dt)] \<and>
           set_link b e [] = [(''Link to Detailed Job Page'', lk)]"
proof -
  obtain n a cs where e: "e = Tag n a cs"
    using assms by (cases e) (simp_all add: extract_job_info_def)
  from assms e obtain d0 where d0: "set_title e [] = Some d0"
    and d: "d = set_link b e (set_date e (set_location e d0))"
    by (auto simp: extract_job_info_def split: option.splits)
  from set_title_upd [OF d0] obtain t where t: "\<forall>d. set_title e d = Some (AList.update ''Job Title'' t d)" by blast
  obtain l where l: "\<forall>d. set_location e d = AList.update ''Location'' l d" using set_location_upd by blast
  obtain dt where dt: "\<forall>d. set_date e d = AList.update ''Post/Publish Date'' dt d" using set_date_upd by blast
  obtain lk where lk: "\<forall>d. set_link b e d = AList.update ''Link to Detailed Job Page'' lk d" using set_link_upd by blast
  have "d0 = [(''Job Title'', t)]" using d0 t by simp
  then show ?thesis using d t l dt lk by simp
qed

lemma title_elem_eq:
  "title_elem e =
     (case find_tag ''h4'' [] e of Some t \<Rightarrow> Some t | None \<Rightarrow>
       (case find_tag ''h3'' [] e of Some t \<Rightarrow> Some t | None \<Rightarrow>
         (case find_tag ''h2'' [] e of Some t \<Rightarrow> Some t | None \<Rightarrow>
           (case find_tag ''a'' [(''class'', MRe title_pattern)] e of
              Some t \<Rightarrow> Some t
            | None \<Rightarrow> find_tag ''span'' [(''class'', MRe title_pattern)] e))))"
  unfolding title_elem_def py_or_find_tag by (simp split: option.splits)

lemma has_descendant_Tag: "t \<in> set (descendants e) \<Longrightarrow> \<exists>n a cs. e = Tag n a cs"
  by (cases e) simp_all

lemma extract_job_info_Tag:
  assumes "set_title (Tag n a cs) [] = Some [(''Job Title'', t)]"
  shows "\<exists>l dt lk.
           extract_job_info b (Tag n a cs) =
             (Some [(''Job Title'', t), (''Location'', l), (''Post/Publish Date'', dt),
                    (''Link to Detailed Job Page'', lk)], []) \<and>
           set_location (Tag n a cs) [] = [(''Location'', l)] \<and>
           set_date (Tag n a cs) [] = [(''Post/Publish Date'', dt)] \<and>
           set_link b (Tag n a cs) [] = [(''Link to Detailed Job Page'', lk)]"
proof -
  let ?e = "Tag n a cs"
  obtain l where l: "\<forall>d. set_location ?e d = AList.update ''Location'' l d" using set_location_upd by blast
  obtain dt where dt: "\<forall>d. set_date ?e d = AList.update ''Post/Publish Date'' dt d" using set_date_upd by blast
  obtain lk where lk: "\<forall>d. set_link b ?e d = AList.update ''Link to Detailed Job Page'' lk d" using set_link_upd by blast
  show ?thesis using assms l dt lk by (simp add: extract_job_info_def)
qed

lemma absolute_link_cases:
  "(startswith link ''http'' \<longrightarrow> absolute_link b link = link) \<and>
   (\<not> startswith link ''http'' \<and> startswith link ''/'' \<longrightarrow> absolute_link b link = b @ link) \<and>
   (\<not> startswith link ''http'' \<and> \<not> startswith link ''/'' \<longrightarrow> absolute_link b link = b @ ''/'' @ link)"
  by (cases link) (auto simp: absolute_link_def startswith_def)

lemma set_title_None_iff:
  "set_title e [] = None \<longleftrightarrow>
     (\<forall>t\<in>set (descendants e).
        \<not> search_tag ''h4'' [] t \<and> \<not> search_tag ''h3'' [] t \<and> \<not> search_tag ''h2'' [] t \<and>
        \<not> search_tag ''a'' [(''class'', MRe title_pattern)] t \<and>
        \<not> search_tag ''span'' [(''class'', MRe title_pattern)] t \<and>
        \<not> search_tag ''a'' [] t)"
proof -
  have "set_title e [] = None \<longleftrightarrow>
          find_tag ''h4'' [] e = None \<and> find_tag ''h3'' [] e = None \<and>
          find_tag ''h2'' [] e = None \<and>
          find_tag ''a'' [(''class'', MRe title_pattern)] e = None \<and>
          find_tag ''span'' [(''class'', MRe title_pattern)] e = None \<and>
          find_tag ''a'' [] e = None"
    unfolding set_title_eq title_elem_eq by (auto split: option.splits)
  then show ?thesis unfolding find_tag_None_iff by blast
qed

lemma search_tag_name: "search_tag nm rs t \<Longrightarrow> \<exists>a cs. t = Tag nm a cs"
  by (cases t) simp_all

lemma find_tag_name: "find_tag nm rs e = Some t \<Longrightarrow> \<exists>a cs. t = Tag nm a cs"
  unfolding find_tag_Some_iff using search_tag_name by blast

section \<open>The loop over the listings\<close>

lemma extract_job_info_with_no_faults:
  "extract_job_info_with (\<lambda>_. None) base_url e = extract_job_info base_url e"
  by (simp add: extract_job_info_with_def extract_job_body_with_def extract_job_info_def)

lemma loop_body_with_no_faults: "loop_body_with (\<lambda>_. None) e st = loop_body e st"
  by (simp add: loop_body_with_def loop_body_def extract_job_info_with_no_faults)

lemma extract_loop_with_no_faults: "extract_loop_with (\<lambda>_. None) es st = extract_loop es st"
  by (induction es arbitrary: st) (simp_all add: loop_body_with_no_faults split: sum.splits)

lemma scrape_ibps_jobs_with_no_faults:
  "scrape_ibps_jobs_with (\<lambda>_. None) net writable c url output_file v =
     scrape_ibps_jobs net writable c url output_file v"
  unfolding scrape_ibps_jobs_with_def scrape_ibps_jobs_def extract_loop_with_no_faults
  by (rule refl)

lemma extract_job_info_with_Some:
  assumes "fst (extract_job_info_with faults base_url e) = Some d"
  shows "fst (extract_job_info base_url e) = Some d"
proof (cases "faults e")
  case None
  with assms show ?thesis
    by (simp add: extract_job_info_with_def extract_job_body_with_def extract_job_info_def)
next
  case (Some x)
  with assms show ?thesis
    by (simp add: extract_job_info_with_def extract_job_body_with_def)
qed

lemma loop_body_with_cases:
  "(\<forall>jobs out. loop_body_with faults e (jobs, out) =
       Inr (jobs, out @ snd (extract_job_info_with faults default_base_url e))) \<or>
   (\<exists>d title.
      (\<forall>jobs out. loop_body_with faults e (jobs, out) =
         Inr (jobs @ [d], out @ snd (extract_job_info_with faults default_base_url e))) \<and>
      fst (extract_job_info_with faults default_base_url e) = Some d \<and>
      map_of d ''Job Title'' = Some title \<and> title \<noteq> [] \<and>
      \<not> list_ex (\<lambda>keyword. str_in keyword (strip (lower title))) exclude_keywords \<and>
      length title < 100)"
proof -
  obtain ji pr where x: "extract_job_info_with faults default_base_url e = (ji, pr)"
    by (cases "extract_job_info_with faults default_base_url e")
  show ?thesis
  proof (cases ji)
    case None
    with x show ?thesis by (simp add: loop_body_with_def)
  next
    case (Some d)
    with x have "fst (extract_job_info_with faults default_base_url e) = Some d" by simp
    then have "fst (extract_job_info default_base_url e) = Some d"
      by (rule extract_job_info_with_Some)
    from extract_job_info_Some [OF this] obtain t where t: "map_of d ''Job Title'' = Some t"
      and d: "d \<noteq> []" by auto
    show ?thesis
    proof (cases "t \<noteq> [] \<and>
        \<not> list_ex (\<lambda>keyword. str_in keyword (strip (lower t))) exclude_keywords \<and>
        length t < 100")
      case True
      with x Some t d show ?thesis by (simp add: loop_body_with_def)
    next
      case False
      with x Some t d have "\<forall>jobs out. loop_body_with faults e (jobs, out) = Inr (jobs, out @ pr)"
        by (auto simp add: loop_body_with_def)
      with x show ?thesis by simp
    qed
  qed
qed

lemma loop_body_with_shape:
  "\<exists>js pr. (\<forall>jobs out. loop_body_with faults e (jobs, out) = Inr (jobs @ js, out @ pr)) \<and>
     (\<forall>d\<in>set js. \<exists>title.
        fst (extract_job_info_with faults default_base_url e) = Some d \<and>
        map_of d ''Job Title'' = Some title \<and> title \<noteq> [] \<and>
        \<not> list_ex (\<lambda>keyword. str_in keyword (strip (lower title))) exclude_keywords \<and>
        length title < 100) \<and>
     (\<forall>p\<in>set pr. \<exists>x. p = Print_extract_error x)"
proof -
  let ?pr = "snd (extract_job_info_with faults default_base_url e)"
  have pr: "\<forall>p\<in>set ?pr. \<exists>x. p = Print_extract_error x"
    by (cases "extract_job_body_with faults default_base_url e")
       (simp_all add: extract_job_info_with_def)
  from loop_body_with_cases [of faults e] show ?thesis
  proof
    assume "\<forall>jobs out. loop_body_with faults e (jobs, out) = Inr (jobs, out @ ?pr)"
    with pr show ?thesis by (intro exI [of _ "[]"] exI [of _ ?pr]) simp
  next
    assume "\<exists>d title.
      (\<forall>jobs out. loop_body_with faults e (jobs, out) = Inr (jobs @ [d], out @ ?pr)) \<and>
      fst (extract_job_info_with faults default_base_url e) = Some d \<and>
      map_of d ''Job Title'' = Some title \<and> title \<noteq> [] \<and>
      \<not> list_ex (\<lambda>keyword. str_in keyword (strip (lower title))) exclude_keywords \<and>
      length title < 100"
    then obtain d title
      where "\<forall>jobs out. loop_body_with faults e (jobs, out) = Inr (jobs @ [d], out @ ?pr)"
      and "fst (extract_job_info_with faults default_base_url e) = Some d"
      and "map_of d ''Job Title'' = Some title" and "title \<noteq> []"
      and "\<not> list_ex (\<lambda>keyword. str_in keyword (strip (lower title))) exclude_keywords"
      and "length title < 100" by blast
    with pr show ?thesis by (intro exI [of _ "[d]"] exI [of _ ?pr]) simp
  qed
qed

lemma extract_loop_with_shape:
  "\<exists>js pr. (\<forall>jobs out. extract_loop_with faults es (jobs, out) = Inr (jobs @ js, out @ pr)) \<and>
     (\<forall>d\<in>set js. \<exists>e\<in>set es. \<exists>title.
        fst (extract_job_info_with faults default_base_url e) = Some d \<and>
        map_of d ''Job Title'' = Some title \<and> title \<noteq> [] \<and>
        \<not> list_ex (\<lambda>keyword. str_in keyword (strip (lower title))) exclude_keywords \<and>
        length title < 100) \<and>
     (\<forall>p\<in>set pr. \<exists>x. p = Print_extract_error x)"
proof (induction es)
  case Nil
  show ?case by (intro exI [of _ "[]"]) simp
next
  case (Cons e es)
  from loop_body_with_shape [of faults e] obtain js1 pr1
    where lb: "\<forall>jobs out. loop_body_with faults e (jobs, out) = Inr (jobs @ js1, out @ pr1)"
      and q1: "\<forall>d\<in>set js1. \<exists>title.
        fst (extract_job_info_with faults default_base_url e) = Some d \<and>
        map_of d ''Job Title'' = Some title \<and> title \<noteq> [] \<and>
        \<not> list_ex (\<lambda>keyword. str_in keyword (strip (lower title))) exclude_keywords \<and>
        length title < 100"
      and p1: "\<forall>p\<in>set pr1. \<exists>x. p = Print_extract_error x" by blast
  from Cons.IH obtain js2 pr2
    where el: "\<forall>jobs out. extract_loop_with faults es (jobs, out) = Inr (jobs @ js2, out @ pr2)"
      and q2: "\<forall>d\<in>set js2. \<exists>e\<in>set es. \<exists>title.
        fst (extract_job_info_with faults default_base_url e) = Some d \<and>
        map_of d ''Job Title'' = Some title \<and> title \<noteq> [] \<and>
        \<not> list_ex (\<lambda>keyword. str_in keyword (strip (lower title))) exclude_keywords \<and>
        length title < 100"
      and p2: "\<forall>p\<in>set pr2. \<exists>x. p = Print_extract_error x" by blast
  have a: "\<forall>jobs out. extract_loop_with faults (e # es) (jobs, out) =
             Inr (jobs @ (js1 @ js2), out @ (pr1 @ pr2))"
    using lb el by simp
  have b: "\<forall>d\<in>set (js1 @ js2). \<exists>e\<in>set (e # es). \<exists>title.
        fst (extract_job_info_with faults default_base_url e) = Some d \<and>
        map_of d ''Job Title'' = Some title \<and> title \<noteq> [] \<and>
        \<not> list_ex (\<lambda>keyword. str_in keyword (strip (lower title))) exclude_keywords \<and>
        length title < 100"
  proof
    fix d assume "d \<in> set (js1 @ js2)"
    then consider "d \<in> set js1" | "d \<in> set js2" by auto
    then show "\<exists>e\<in>set (e # es). \<exists>title.
        fst (extract_job_info_with faults default_base_url e) = Some d \<and>
        map_of d ''Job Title'' = Some title \<and> title \<noteq> [] \<and>
        \<not> list_ex (\<lambda>keyword. str_in keyword (strip (lower title))) exclude_keywords \<and>
        length title < 100"
    proof cases
      case 1
      with q1 show ?thesis by (intro bexI [of _ e]) simp_all
    next
      case 2
      with q2 obtain e' where "e' \<in> set es" and "\<exists>title.
        fst (extract_job_info_with faults default_base_url e') = Some d \<and>
        map_of d ''Job Title'' = Some title \<and> title \<noteq> [] \<and>
        \<not> list_ex (\<lambda>keyword. str_in keyword (strip (lower title))) exclude_keywords \<and>
        length title < 100" by blast
      then show ?thesis by (intro bexI [of _ e']) simp_all
    qed
  qed
  have c: "\<forall>p\<in>set (pr1 @ pr2). \<exists>x. p = Print_extract_error x"
    using p1 p2 by auto
  from a b c show ?case by blast
qed

lemma extract_loop_with_append:
  "extract_loop_with faults (xs @ ys) st =
     (case extract_loop_with faults xs st of Inl e \<Rightarrow> Inl e | Inr st' \<Rightarrow> extract_loop_with faults ys st')"
  by (induction xs arbitrary: st) (auto split: sum.splits)

lemma extract_loop_shape:
  "\<exists>js pr. (\<forall>jobs out. extract_loop es (jobs, out) = Inr (jobs @ js, out @ pr)) \<and>
     (\<forall>d\<in>set js. \<exists>e\<in>set es. \<exists>title.
        fst (extract_job_info default_base_url e) = Some d \<and>
        map_of d ''Job Title'' = Some title \<and> title \<noteq> [] \<and>
        \<not> list_ex (\<lambda>keyword. str_in keyword (strip (lower title))) exclude_keywords \<and>
        length title < 100) \<and>
     (\<forall>p\<in>set pr. \<exists>x. p = Print_extract_error x)"
  using extract_loop_with_shape [of "\<lambda>_. None" es]
  unfolding extract_loop_with_no_faults extract_job_info_with_no_faults .

section \<open>Dropping duplicates\<close>

lemma set_drop_duplicates: "set (drop_duplicates cols rs) \<subseteq> set rs"
  by (induction cols rs rule: drop_duplicates.induct) auto

lemma distinct_drop_duplicates:
  assumes "\<And>r r'. f r = f r' \<Longrightarrow> map (map_of r) cols = map (map_of r') cols"
  shows "distinct (map f (drop_duplicates cols rs))"
  using assms
proof (induction cols rs rule: drop_duplicates.induct)
  case (1 cols)
  show ?case by simp
next
  case (2 cols r rs)
  let ?rest = "filter (\<lambda>r'. map (map_of r') cols \<noteq> map (map_of r) cols) rs"
  have "f r \<notin> f ` set (drop_duplicates cols ?rest)"
  proof
    assume "f r \<in> f ` set (drop_duplicates cols ?rest)"
    then obtain r' where r': "r' \<in> set (drop_duplicates cols ?rest)" and eq: "f r = f r'"
      by blast
    from r' set_drop_duplicates [of cols ?rest] have "r' \<in> set ?rest" by blast
    then have "map (map_of r') cols \<noteq> map (map_of r) cols" by simp
    moreover from eq have "map (map_of r) cols = map (map_of r') cols" by (rule "2.prems")
    ultimately show False by simp
  qed
  moreover have "distinct (map f (drop_duplicates cols ?rest))"
    using "2.IH" "2.prems" by blast
  ultimately show ?case by simp
qed

lemma distinct_title_link:
  "distinct (map (\<lambda>r. (map_of r ''Job Title'', map_of r ''Link to Detailed Job Page''))
       (drop_duplicates [''Job Title'', ''Link to Detailed Job Page''] rs))"
  by (rule distinct_drop_duplicates) simp

section \<open>What a run writes\<close>

lemma get_page_content_no_write:
  "To_csv fname rows \<notin> set (snd (get_page_content net c url v))"
  by (auto simp: get_page_content_def Let_def split: sum.splits request_exn.splits)

lemma find_job_elements_no_write:
  "To_csv fname rows \<notin> set (snd (find_job_elements soup))"
  by (auto simp: find_job_elements_def Let_def split: prod.splits)

lemma no_jobs_guidance_no_write: "To_csv fname rows \<notin> set no_jobs_guidance"
  by (simp add: no_jobs_guidance_def)

lemma save_jobs_write:
  assumes "save_jobs writable output_file jobs = Inr saved"
  shows "To_csv fname rows \<in> set saved \<longleftrightarrow>
     jobs \<noteq> [] \<and> fname = output_file \<and>
     rows = drop_duplicates [''Job Title'', ''Link to Detailed Job Page''] jobs"
proof (cases "jobs = []")
  case True
  with assms have "saved = no_jobs_guidance" by (simp add: save_jobs_def)
  with True show ?thesis by (simp add: no_jobs_guidance_def)
next
  case False
  with assms show ?thesis
    by (cases "writable output_file") (auto simp: save_jobs_def Let_def)
qed

lemma save_jobs_Inl:
  assumes "save_jobs writable output_file jobs = Inl e"
  shows "e = OSError \<and> \<not> writable output_file \<and> jobs \<noteq> []"
  using assms by (auto simp: save_jobs_def Let_def split: if_splits)

lemma save_jobs_writable:
  assumes "writable output_file"
  shows "\<exists>saved. save_jobs writable output_file jobs = Inr saved"
  using assms by (simp add: save_jobs_def Let_def)

lemma extract_loop_with_Inr:
  "\<exists>jobs printed. extract_loop_with faults es st = Inr (jobs, printed)"
  using extract_loop_with_shape [of faults es] by (cases st) auto

lemma extract_loop_Inr: "\<exists>jobs printed. extract_loop es st = Inr (jobs, printed)"
  using extract_loop_shape [of es] by (cases st) auto

lemma extract_loop_no_write:
  assumes "extract_loop es ([], []) = Inr (jobs, printed)"
  shows "To_csv fname rows \<notin> set printed"
proof -
  from extract_loop_shape [of es] obtain js pr
    where "\<forall>jobs out. extract_loop es (jobs, out) = Inr (jobs @ js, out @ pr)"
      and "\<forall>p\<in>set pr. \<exists>x. p = Print_extract_error x" by blast
  with assms have "\<forall>p\<in>set printed. \<exists>x. p = Print_extract_error x" by simp
  then show ?thesis by blast
qed

lemma scrape_ibps_jobs_with_from_loop:
  assumes "get_page_content net c url v = (Some soup, fetched)"
  shows "\<exists>jobs printed.
           extract_loop_with faults (fst (find_job_elements soup)) ([], []) = Inr (jobs, printed) \<and>
           scrape_ibps_jobs_with faults net writable c url output_file v =
             (case save_jobs writable output_file jobs of
                Inl e \<Rightarrow> Inl e
              | Inr saved \<Rightarrow>
                  Inr (Print_fetching url # fetched @ snd (find_job_elements soup) @ printed @
                       saved))"
proof -
  obtain es found where f: "find_job_elements soup = (es, found)"
    by (cases "find_job_elements soup")
  from extract_loop_with_Inr [of faults es "([], [])"] obtain jobs printed
    where l: "extract_loop_with faults es ([], []) = Inr (jobs, printed)" by blast
  with assms f show ?thesis by (simp add: scrape_ibps_jobs_with_def split: sum.splits)
qed

lemma scrape_ibps_jobs_with_Inl:
  assumes "scrape_ibps_jobs_with faults net writable c url output_file v = Inl e"
  shows "e = OSError \<and> \<not> writable output_file"
proof (cases "get_page_content net c url v")
  case (Pair result fetched)
  show ?thesis
  proof (cases result)
    case None
    with Pair assms show ?thesis by (simp add: scrape_ibps_jobs_with_def)
  next
    case (Some soup)
    from scrape_ibps_jobs_with_from_loop [OF Pair [unfolded Some], of faults writable output_file]
    obtain jobs printed
      where "scrape_ibps_jobs_with faults net writable c url output_file v =
             (case save_jobs writable output_file jobs of
                Inl e \<Rightarrow> Inl e
              | Inr saved \<Rightarrow>
                  Inr (Print_fetching url # fetched @ snd (find_job_elements soup) @ printed @
                       saved))" by blast
    with assms have "save_jobs writable output_file jobs = Inl e"
      by (cases "save_jobs writable output_file jobs") simp_all
    then show ?thesis using save_jobs_Inl by blast
  qed
qed

lemma scrape_ibps_jobs_Inl:
  assumes "scrape_ibps_jobs net writable c url output_file v = Inl e"
  shows "e = OSError \<and> \<not> writable output_file"
  using assms scrape_ibps_jobs_with_Inl [of "\<lambda>_. None"]
  unfolding scrape_ibps_jobs_with_no_faults by blast

lemma scrape_ibps_jobs_Inr:
  assumes "writable output_file"
  shows "\<exists>evs. scrape_ibps_jobs net writable c url output_file v = Inr evs"
proof (cases "scrape_ibps_jobs net writable c url output_file v")
  case (Inl e)
  from scrape_ibps_jobs_Inl [OF this] assms show ?thesis by simp
next
  case (Inr evs)
  then show ?thesis by blast
qed

lemma scrape_ibps_jobs_cases:
  assumes "scrape_ibps_jobs net writable c url output_file v = Inr evs"
  shows "(\<exists>fetched. get_page_content net c url v = (None, fetched) \<and>
            evs = Print_fetching url # fetched @
              [Print ''Failed to fetch the page. Please check your internet connection and try again.'']) \<or>
         (\<exists>soup fetched jobs printed saved.
            get_page_content net c url v = (Some soup, fetched) \<and>
            extract_loop (fst (find_job_elements soup)) ([], []) = Inr (jobs, printed) \<and>
            save_jobs writable output_file jobs = Inr saved \<and>
            evs = Print_fetching url # fetched @ snd (find_job_elements soup) @ printed @ saved)"
proof (cases "get_page_content net c url v")
  case (Pair result fetched)
  show ?thesis
  proof (cases result)
    case None
    with Pair assms show ?thesis by (simp add: scrape_ibps_jobs_def)
  next
    case (Some soup)
    from scrape_ibps_jobs_with_from_loop [OF Pair [unfolded Some], of "\<lambda>_. None" writable output_file]
    obtain jobs printed
      where l: "extract_loop (fst (find_job_elements soup)) ([], []) = Inr (jobs, printed)"
        and r: "scrape_ibps_jobs net writable c url output_file v =
             (case save_jobs writable output_file jobs of
                Inl e \<Rightarrow> Inl e
              | Inr saved \<Rightarrow>
                  Inr (Print_fetching url # fetched @ snd (find_job_elements soup) @ printed @
                       saved))"
      unfolding scrape_ibps_jobs_with_no_faults extract_loop_with_no_faults by blast
    from r assms obtain saved where "save_jobs writable output_file jobs = Inr saved"
      and "evs = Print_fetching url # fetched @ snd (find_job_elements soup) @ printed @ saved"
      by (cases "save_jobs writable output_file jobs") simp_all
    with Pair Some l show ?thesis by blast
  qed
qed

lemma written_rows:
  assumes "scrape_ibps_jobs net writable c url output_file v = Inr evs"
    and "To_csv fname rows \<in> set evs"
  shows "\<exists>soup fetched jobs printed.
           get_page_content net c url v = (Some soup, fetched) \<and>
           extract_loop (fst (find_job_elements soup)) ([], []) = Inr (jobs, printed) \<and>
           jobs \<noteq> [] \<and> fname = output_file \<and>
           rows = drop_duplicates [''Job Title'', ''Link to Detailed Job Page''] jobs"
  using scrape_ibps_jobs_cases [OF assms(1)]
proof
  assume "\<exists>fetched. get_page_content net c url v = (None, fetched) \<and>
            evs = Print_fetching url # fetched @
              [Print ''Failed to fetch the page. Please check your internet connection and try again.'']"
  then obtain fetched where g: "get_page_content net c url v = (None, fetched)"
    and evs: "evs = Print_fetching url # fetched @
              [Print ''Failed to fetch the page. Please check your internet connection and try again.'']"
    by blast
  from get_page_content_no_write [of fname rows net c url v] g
  have "To_csv fname rows \<notin> set fetched" by simp
  with evs assms(2) show ?thesis by simp
next
  assume "\<exists>soup fetched jobs printed saved.
            get_page_content net c url v = (Some soup, fetched) \<and>
            extract_loop (fst (find_job_elements soup)) ([], []) = Inr (jobs, printed) \<and>
            save_jobs writable output_file jobs = Inr saved \<and>
            evs = Print_fetching url # fetched @ snd (find_job_elements soup) @ printed @ saved"
  then obtain soup fetched jobs printed saved
    where g: "get_page_content net c url v = (Some soup, fetched)"
      and l: "extract_loop (fst (find_job_elements soup)) ([], []) = Inr (jobs, printed)"
      and s: "save_jobs writable output_file jobs = Inr saved"
      and evs: "evs = Print_fetching url # fetched @ snd (find_job_elements soup) @ printed @
                    saved" by blast
  from get_page_content_no_write [of fname rows net c url v] g
  have 1: "To_csv fname rows \<notin> set fetched" by simp
  have 2: "To_csv fname rows \<notin> set (snd (find_job_elements soup))"
    by (rule find_job_elements_no_write)
  have 3: "To_csv fname rows \<notin> set printed"
    using l by (rule extract_loop_no_write)
  from evs assms(2) 1 2 3 have "To_csv fname rows \<in> set saved" by simp
  then have "jobs \<noteq> [] \<and> fname = output_file \<and>
     rows = drop_duplicates [''Job Title'', ''Link to Detailed Job Page''] jobs"
    unfolding save_jobs_write [OF s] .
  with g l show ?thesis by blast
qed

lemma written_rows_pass_title_filter:
  assumes "scrape_ibps_jobs net writable c url output_file v = Inr evs"
    and "To_csv fname rows \<in> set evs"
  shows "\<forall>d\<in>set rows. \<exists>title.
           map_of d ''Job Title'' = Some title \<and> title \<noteq> [] \<and>
           \<not> list_ex (\<lambda>keyword. str_in keyword (strip (lower title))) exclude_keywords \<and>
           length title < 100"
proof -
  from written_rows [OF assms] obtain soup jobs printed
    where l: "extract_loop (fst (find_job_elements soup)) ([], []) = Inr (jobs, printed)"
      and rows: "rows = drop_duplicates [''Job Title'', ''Link to Detailed Job Page''] jobs"
    by blast
  from extract_loop_shape [of "fst (find_job_elements soup)"] obtain js pr
    where "\<forall>jobs out. extract_loop (fst (find_job_elements soup)) (jobs, out) =
             Inr (jobs @ js, out @ pr)"
      and "\<forall>d\<in>set js. \<exists>e\<in>set (fst (find_job_elements soup)). \<exists>title.
        fst (extract_job_info default_base_url e) = Some d \<and>
        map_of d ''Job Title'' = Some title \<and> title \<noteq> [] \<and>
        \<not> list_ex (\<lambda>keyword. str_in keyword (strip (lower title))) exclude_keywords \<and>
        length title < 100" by blast
  with l have "\<forall>d\<in>set jobs. \<exists>title.
           map_of d ''Job Title'' = Some title \<and> title \<noteq> [] \<and>
           \<not> list_ex (\<lambda>keyword. str_in keyword (strip (lower title))) exclude_keywords \<and>
           length title < 100" by auto
  with rows set_drop_duplicates [of "[''Job Title'', ''Link to Detailed Job Page'']" jobs]
  show ?thesis by blast
qed

section \<open>What the loop keeps\<close>

lemma loop_body_with_keeps:
  assumes "fst (extract_job_info_with faults default_base_url e) = Some d"
    and "map_of d ''Job Title'' = Some title" and "title \<noteq> []"
    and "\<not> list_ex (\<lambda>keyword. str_in keyword (strip (lower title))) exclude_keywords"
    and "length title < 100"
  shows "loop_body_with faults e (jobs, out) =
           Inr (jobs @ [d], out @ snd (extract_job_info_with faults default_base_url e))"
proof -
  obtain ji pr where x: "extract_job_info_with faults default_base_url e = (ji, pr)"
    by (cases "extract_job_info_with faults default_base_url e")
  with assms(1) have ji: "ji = Some d" by simp
  from assms(2) have "d \<noteq> []" by auto
  with x ji assms(2-5) show ?thesis by (simp add: loop_body_with_def)
qed

lemma extract_loop_with_grows:
  assumes "extract_loop_with faults es (jobs, out) = Inr (jobs', out')"
  shows "set jobs \<subseteq> set jobs'"
proof -
  from extract_loop_with_shape [of faults es] obtain js pr
    where "\<forall>jobs out. extract_loop_with faults es (jobs, out) = Inr (jobs @ js, out @ pr)"
    by blast
  with assms have "jobs' = jobs @ js" by simp
  then show ?thesis by simp
qed

lemma extract_loop_with_keeps:
  assumes "extract_loop_with faults es (jobs, out) = Inr (jobs', out')"
    and "e \<in> set es"
    and "fst (extract_job_info_with faults default_base_url e) = Some d"
    and "map_of d ''Job Title'' = Some title" and "title \<noteq> []"
    and "\<not> list_ex (\<lambda>keyword. str_in keyword (strip (lower title))) exclude_keywords"
    and "length title < 100"
  shows "d \<in> set jobs'"
  using assms(1,2)
proof (induction es arbitrary: jobs out)
  case Nil
  then show ?case by simp
next
  case (Cons a es)
  from loop_body_with_shape [of faults a] obtain js1 pr1
    where lb: "\<forall>jobs out. loop_body_with faults a (jobs, out) = Inr (jobs @ js1, out @ pr1)"
    by blast
  with Cons.prems(1)
  have rest: "extract_loop_with faults es (jobs @ js1, out @ pr1) = Inr (jobs', out')" by simp
  show ?case
  proof (cases "e = a")
    case True
    from loop_body_with_keeps [OF assms(3-7), of jobs out] lb True
    have "jobs @ js1 = jobs @ [d]" by simp
    then have "d \<in> set (jobs @ js1)" by simp
    with extract_loop_with_grows [OF rest] show ?thesis by blast
  next
    case False
    with Cons.prems(2) have "e \<in> set es" by simp
    with Cons.IH [OF rest] show ?thesis by simp
  qed
qed

section \<open>The claims of the specification\<close>

text \<open>
  \<^bold>\<open>C1\<close>, as the specification words it, says that the extracted title is the trimmed
  text of the title tag. It is not, when the tag holds more than one string: of
  \<open><h3>Probationary <b>Officer</b></h3>\<close> the text is \<open>Probationary Officer\<close>, which
  trimming leaves as it is, and the title extracted is \<open>ProbationaryOfficer\<close>.
\<close>

theorem title_is_not_trimmed_text_counterexample:
  "find_tag ''h4'' []
     (Tag ''li'' []
        [Tag ''h3'' []
           [Text NavigableString ''Probationary '',
            Tag ''b'' [] [Text NavigableString ''Officer'']]]) = None \<and>
   find_tag ''h3'' []
     (Tag ''li'' []
        [Tag ''h3'' []
           [Text NavigableString ''Probationary '',
            Tag ''b'' [] [Text NavigableString ''Officer'']]])
     = Some (Tag ''h3'' []
               [Text NavigableString ''Probationary '',
                Tag ''b'' [] [Text NavigableString ''Officer'']]) \<and>
   trimmed_text
     (Tag ''h3'' []
        [Text NavigableString ''Probationary '',
         Tag ''b'' [] [Text NavigableString ''Officer'']]) = ''Probationary Officer'' \<and>
   extract_job_info ''https://www.ibps.in''
     (Tag ''li'' []
        [Tag ''h3'' []
           [Text NavigableString ''Probationary '',
            Tag ''b'' [] [Text NavigableString ''Officer'']]])
     = (Some [(''Job Title'', ''ProbationaryOfficer''), (''Location'', ''Not specified''),
              (''Post/Publish Date'', ''Not specified''),
              (''Link to Detailed Job Page'', ''Not available'')], []) \<and>
   ''ProbationaryOfficer'' \<noteq> ''Probationary Officer''"
  by code_simp

text \<open>
  \<^bold>\<open>C1\<close>, amended. When a listing element contains a recognizable title tag (a
  descendant that is an \<open>h4\<close>, \<open>h3\<close> or \<open>h2\<close> tag, or an \<open>a\<close> or \<open>span\<close> tag whose
  class matches \<open>title|heading|name\<close>), \<open>extract_job_info\<close> returns a record whose
  \<open>Job Title\<close> is made of the strings below a title tag \<open>t\<close> (the comments and other
  special strings apart): each string trimmed, the empty ones left out, the rest joined
  with nothing between them. For a tag that holds one string this is the trimmed text.
  The tag \<open>t\<close> is the first in the order \<open>h4\<close>, \<open>h3\<close>, \<open>h2\<close>, matching \<open>a\<close>, matching
  \<open>span\<close>: what the search for the first kind that occurs finds, every search before it
  finding nothing.
\<close>

theorem title_is_stripped_strings_of_first_title_tag:
  assumes "t0 \<in> set (descendants job_element)"
    and "search_tag ''h4'' [] t0 \<or> search_tag ''h3'' [] t0 \<or> search_tag ''h2'' [] t0 \<or>
         search_tag ''a'' [(''class'', MRe title_pattern)] t0 \<or>
         search_tag ''span'' [(''class'', MRe title_pattern)] t0"
  shows "\<exists>t d. extract_job_info base_url job_element = (Some d, []) \<and>
           map_of d ''Job Title'' =
             Some (concat [strip s. Text c s \<leftarrow> descendants t,
                                    c = NavigableString \<or> c = CData, strip s \<noteq> []]) \<and>
           (\<forall>n a s. t = Tag n a [Text NavigableString s] \<longrightarrow>
              map_of d ''Job Title'' = Some (strip s)) \<and>
           (find_tag ''h4'' [] job_element = Some t \<or>
            find_tag ''h4'' [] job_element = None \<and>
            (find_tag ''h3'' [] job_element = Some t \<or>
             find_tag ''h3'' [] job_element = None \<and>
             (find_tag ''h2'' [] job_element = Some t \<or>
              find_tag ''h2'' [] job_element = None \<and>
              (find_tag ''a'' [(''class'', MRe title_pattern)] job_element = Some t \<or>
               find_tag ''a'' [(''class'', MRe title_pattern)] job_element = None \<and>
               find_tag ''span'' [(''class'', MRe title_pattern)] job_element = Some t))))"
proof -
  obtain n a cs where e: "job_element = Tag n a cs"
    using has_descendant_Tag [OF assms(1)] by blast
  have "\<not> (find_tag ''h4'' [] job_element = None \<and> find_tag ''h3'' [] job_element = None \<and>
           find_tag ''h2'' [] job_element = None \<and>
           find_tag ''a'' [(''class'', MRe title_pattern)] job_element = None \<and>
           find_tag ''span'' [(''class'', MRe title_pattern)] job_element = None)"
    unfolding find_tag_None_iff using assms by blast
  then have "\<exists>t. title_elem job_element = Some t"
    unfolding title_elem_eq by (auto split: option.splits)
  then obtain t where t: "title_elem job_element = Some t" ..
  then have prio: "find_tag ''h4'' [] job_element = Some t \<or>
            find_tag ''h4'' [] job_element = None \<and>
            (find_tag ''h3'' [] job_element = Some t \<or>
             find_tag ''h3'' [] job_element = None \<and>
             (find_tag ''h2'' [] job_element = Some t \<or>
              find_tag ''h2'' [] job_element = None \<and>
              (find_tag ''a'' [(''class'', MRe title_pattern)] job_element = Some t \<or>
               find_tag ''a'' [(''class'', MRe title_pattern)] job_element = None \<and>
               find_tag ''span'' [(''class'', MRe title_pattern)] job_element = Some t)))"
    unfolding title_elem_eq by (auto split: option.splits)
  have c: "map_of string_containers ''h4'' = None" "map_of string_containers ''h3'' = None"
    "map_of string_containers ''h2'' = None" "map_of string_containers ''a'' = None"
    "map_of string_containers ''span'' = None"
    by (simp_all add: string_containers_def)
  from prio consider
      (h4) "find_tag ''h4'' [] job_element = Some t"
    | (h3) "find_tag ''h3'' [] job_element = Some t"
    | (h2) "find_tag ''h2'' [] job_element = Some t"
    | (anchor) "find_tag ''a'' [(''class'', MRe title_pattern)] job_element = Some t"
    | (span) "find_tag ''span'' [(''class'', MRe title_pattern)] job_element = Some t"
    by blast
  then have "\<exists>nm a' cs'. t = Tag nm a' cs' \<and> map_of string_containers nm = None"
  proof cases
    case h4
    from find_tag_name [OF h4] c(1) show ?thesis by blast
  next
    case h3
    from find_tag_name [OF h3] c(2) show ?thesis by blast
  next
    case h2
    from find_tag_name [OF h2] c(3) show ?thesis by blast
  next
    case anchor
    from find_tag_name [OF anchor] c(4) show ?thesis by blast
  next
    case span
    from find_tag_name [OF span] c(5) show ?thesis by blast
  qed
  then obtain nm a' cs' where tag: "t = Tag nm a' cs'"
    and nc: "map_of string_containers nm = None" by blast
  from nc have gt: "get_text t =
      concat [strip s. Text c s \<leftarrow> descendants t, c = NavigableString \<or> c = CData, strip s \<noteq> []]"
    unfolding tag by (rule get_text_default)
  have "set_title job_element [] = Some [(''Job Title'', get_text t)]"
    using t by (simp add: set_title_eq)
  from extract_job_info_Tag [OF this [unfolded e], of base_url] obtain d
    where x: "extract_job_info base_url job_element = (Some d, [])"
      and y: "map_of d ''Job Title'' = Some (get_text t)"
    unfolding e by auto
  from y have z: "map_of d ''Job Title'' =
      Some (concat [strip s. Text c s \<leftarrow> descendants t,
                             c = NavigableString \<or> c = CData, strip s \<noteq> []])"
    unfolding gt .
  have w: "\<forall>n a s. t = Tag n a [Text NavigableString s] \<longrightarrow>
              map_of d ''Job Title'' = Some (strip s)"
  proof (intro allI impI)
    fix n a s
    assume "t = Tag n a [Text NavigableString s]"
    with z show "map_of d ''Job Title'' = Some (strip s)" by simp
  qed
  from x z w prio show ?thesis by (intro exI [of _ t] exI [of _ d] conjI)
qed

theorem title_is_stripped_strings_of_first_title_tag_witness:
  "\<exists>d. extract_job_info ''https://www.ibps.in''
          (Tag ''div'' [(''class'', ''job-item'')]
             [Tag ''h3'' [] [Text NavigableString '' Clerk ''],
              Tag ''h4'' []
                [Text NavigableString ''  Officer '',
                 Tag ''b'' [] [Text NavigableString '' Scale I ''],
                 Text Comment ''grade'']]) = (Some d, []) \<and>
        map_of d ''Job Title'' = Some ''OfficerScale I''"
proof -
  let ?h3 = "Tag ''h3'' [] [Text NavigableString '' Clerk '']"
  let ?h4 = "Tag ''h4'' []
                [Text NavigableString ''  Officer '',
                 Tag ''b'' [] [Text NavigableString '' Scale I ''],
                 Text Comment ''grade'']"
  let ?e = "Tag ''div'' [(''class'', ''job-item'')] [?h3, ?h4]"
  have 1: "?h3 \<in> set (descendants ?e)" by simp
  have 2: "search_tag ''h4'' [] ?h3 \<or> search_tag ''h3'' [] ?h3 \<or> search_tag ''h2'' [] ?h3 \<or>
         search_tag ''a'' [(''class'', MRe title_pattern)] ?h3 \<or>
         search_tag ''span'' [(''class'', MRe title_pattern)] ?h3" by simp
  have 3: "find_tag ''h4'' [] ?e = Some ?h4" by (simp add: find_tag_def)
  have 4: "concat [strip s. Text c s \<leftarrow> descendants ?h4,
                            c = NavigableString \<or> c = CData, strip s \<noteq> []] = ''OfficerScale I''"
    by code_simp
  from title_is_stripped_strings_of_first_title_tag [OF 1 2, of "''https://www.ibps.in''"]
  obtain t d where x: "extract_job_info ''https://www.ibps.in'' ?e = (Some d, [])"
    and y: "map_of d ''Job Title'' =
      Some (concat [strip s. Text c s \<leftarrow> descendants t,
                             c = NavigableString \<or> c = CData, strip s \<noteq> []])"
    and p: "find_tag ''h4'' [] ?e = Some t \<or> find_tag ''h4'' [] ?e = None \<and>
            (find_tag ''h3'' [] ?e = Some t \<or>
             find_tag ''h3'' [] ?e = None \<and>
             (find_tag ''h2'' [] ?e = Some t \<or>
              find_tag ''h2'' [] ?e = None \<and>
              (find_tag ''a'' [(''class'', MRe title_pattern)] ?e = Some t \<or>
               find_tag ''a'' [(''class'', MRe title_pattern)] ?e = None \<and>
               find_tag ''span'' [(''class'', MRe title_pattern)] ?e = Some t)))"
    by blast
  from p have t: "t = ?h4" unfolding 3 by simp
  from y have "map_of d ''Job Title'' = Some ''OfficerScale I''" unfolding t 4 .
  with x show ?thesis by blast
qed

text \<open>
  \<^bold>\<open>C2.\<close> Every record that the loop of \<open>scrape_ibps_jobs\<close> appends to \<open>jobs\<close> has
  a title that, lower-cased and stripped, contains none of the exclusion phrases, and
  that is shorter than 100 characters; a record extracted from one of the elements
  whose title contains an exclusion phrase or has 100 characters or more is not in
  \<open>jobs\<close>.
\<close>

theorem appended_jobs_pass_title_filter:
  assumes "extract_loop job_elements ([], []) = Inr (jobs, printed)"
  shows "(\<forall>d\<in>set jobs. \<exists>title.
            map_of d ''Job Title'' = Some title \<and>
            \<not> list_ex (\<lambda>keyword. str_in keyword (strip (lower title))) exclude_keywords \<and>
            length title < 100) \<and>
         (\<forall>job_elem\<in>set job_elements. \<forall>d title.
            fst (extract_job_info default_base_url job_elem) = Some d \<and>
            map_of d ''Job Title'' = Some title \<and>
            (list_ex (\<lambda>keyword. str_in keyword (strip (lower title))) exclude_keywords \<or>
             \<not> length title < 100) \<longrightarrow>
            d \<notin> set jobs)"
proof -
  from extract_loop_shape [of job_elements] obtain js pr
    where "\<forall>jobs out. extract_loop job_elements (jobs, out) = Inr (jobs @ js, out @ pr)"
      and "\<forall>d\<in>set js. \<exists>e\<in>set job_elements. \<exists>title.
        fst (extract_job_info default_base_url e) = Some d \<and>
        map_of d ''Job Title'' = Some title \<and> title \<noteq> [] \<and>
        \<not> list_ex (\<lambda>keyword. str_in keyword (strip (lower title))) exclude_keywords \<and>
        length title < 100" by blast
  with assms have 1: "\<forall>d\<in>set jobs. \<exists>title.
            map_of d ''Job Title'' = Some title \<and>
            \<not> list_ex (\<lambda>keyword. str_in keyword (strip (lower title))) exclude_keywords \<and>
            length title < 100" by auto
  then have "\<forall>d title. d \<in> set jobs \<and> map_of d ''Job Title'' = Some title \<longrightarrow>
            \<not> list_ex (\<lambda>keyword. str_in keyword (strip (lower title))) exclude_keywords \<and>
            length title < 100" by fastforce
  with 1 show ?thesis by blast
qed

theorem appended_jobs_pass_title_filter_witness:
  "extract_loop
     [Tag ''li'' [] [Tag ''a'' [(''href'', ''/crp-clerks'')] [Text NavigableString ''CRP Clerks'']],
      Tag ''li'' [] [Tag ''a'' [(''href'', ''/all'')] [Text NavigableString ''View All'']]] ([], [])
     = Inr ([[(''Job Title'', ''CRP Clerks''), (''Location'', ''Not specified''),
              (''Post/Publish Date'', ''Not specified''),
              (''Link to Detailed Job Page'', ''https://www.ibps.in/crp-clerks'')]], []) \<and>
   (\<exists>title. map_of [(''Job Title'', ''CRP Clerks''), (''Location'', ''Not specified''),
              (''Post/Publish Date'', ''Not specified''),
              (''Link to Detailed Job Page'', ''https://www.ibps.in/crp-clerks'')] ''Job Title''
              = Some title \<and>
            \<not> list_ex (\<lambda>keyword. str_in keyword (strip (lower title))) exclude_keywords \<and>
            length title < 100)"
proof -
  let ?es = "[Tag ''li'' [] [Tag ''a'' [(''href'', ''/crp-clerks'')] [Text NavigableString ''CRP Clerks'']],
      Tag ''li'' [] [Tag ''a'' [(''href'', ''/all'')] [Text NavigableString ''View All'']]]"
  let ?d = "[(''Job Title'', ''CRP Clerks''), (''Location'', ''Not specified''),
              (''Post/Publish Date'', ''Not specified''),
              (''Link to Detailed Job Page'', ''https://www.ibps.in/crp-clerks'')]"
  have 1: "extract_loop ?es ([], []) = Inr ([?d], [])" by code_simp
  from appended_jobs_pass_title_filter [OF 1] have "\<exists>title. map_of ?d ''Job Title'' = Some title \<and>
            \<not> list_ex (\<lambda>keyword. str_in keyword (strip (lower title))) exclude_keywords \<and>
            length title < 100" by simp
  with 1 show ?thesis by blast
qed

text \<open>
  \<^bold>\<open>C3.\<close> The rows that a run of \<open>scrape_ibps_jobs\<close> writes to the output file differ
  pairwise in the pair of \<open>Job Title\<close> and \<open>Link to Detailed Job Page\<close>.
\<close>

theorem output_has_no_duplicate_title_link:
  assumes "scrape_ibps_jobs net writable certifi_available url output_file verify_ssl = Inr evs"
    and "To_csv fname rows \<in> set evs"
  shows "distinct (map (\<lambda>r. (map_of r ''Job Title'', map_of r ''Link to Detailed Job Page'')) rows)"
proof -
  from written_rows [OF assms] obtain jobs
    where "rows = drop_duplicates [''Job Title'', ''Link to Detailed Job Page''] jobs" by blast
  then show ?thesis by (simp only: distinct_title_link)
qed

theorem output_has_no_duplicate_title_link_witness:
  "scrape_ibps_jobs
     (\<lambda>k u v. Reply 200
        (Tag ''[document]'' []
           [Tag ''ul'' [(''class'', ''recruitment-list'')]
              [Tag ''li'' [(''class'', ''job'')]
                 [Tag ''a'' [(''href'', ''/crp-po'')] [Text NavigableString ''CRP PO'']],
               Tag ''li'' [(''class'', ''job'')]
                 [Tag ''a'' [(''href'', ''/crp-po'')] [Text NavigableString ''CRP PO'']]]]))
     (\<lambda>f. True) True ''https://www.ibps.in/'' ''ibps_job_listings.csv'' True
   = Inr [Print_fetching ''https://www.ibps.in/'', Request ''https://www.ibps.in/'' Bundle,
          Print_found 2,
          To_csv ''ibps_job_listings.csv''
            [[(''Job Title'', ''CRP PO''), (''Location'', ''Not specified''),
              (''Post/Publish Date'', ''Not specified''),
              (''Link to Detailed Job Page'', ''https://www.ibps.in/crp-po'')]],
          Print_scraped 1, Print_saved ''ibps_job_listings.csv'',
          Print (CHR 0x0A # ''First few listings:''),
          Print_head
            [[(''Job Title'', ''CRP PO''), (''Location'', ''Not specified''),
              (''Post/Publish Date'', ''Not specified''),
              (''Link to Detailed Job Page'', ''https://www.ibps.in/crp-po'')]]] \<and>
   distinct (map (\<lambda>r. (map_of r ''Job Title'', map_of r ''Link to Detailed Job Page''))
            [[(''Job Title'', ''CRP PO''), (''Location'', ''Not specified''),
              (''Post/Publish Date'', ''Not specified''),
              (''Link to Detailed Job Page'', ''https://www.ibps.in/crp-po'')]])"
proof -
  let ?net = "(\<lambda>k u v. Reply 200
        (Tag ''[document]'' []
           [Tag ''ul'' [(''class'', ''recruitment-list'')]
              [Tag ''li'' [(''class'', ''job'')]
                 [Tag ''a'' [(''href'', ''/crp-po'')] [Text NavigableString ''CRP PO'']],
               Tag ''li'' [(''class'', ''job'')]
                 [Tag ''a'' [(''href'', ''/crp-po'')] [Text NavigableString ''CRP PO'']]]])) :: network"
  let ?rows = "[[(''Job Title'', ''CRP PO''), (''Location'', ''Not specified''),
              (''Post/Publish Date'', ''Not specified''),
              (''Link to Detailed Job Page'', ''https://www.ibps.in/crp-po'')]]"
  let ?evs = "[Print_fetching ''https://www.ibps.in/'', Request ''https://www.ibps.in/'' Bundle,
          Print_found 2,
          To_csv ''ibps_job_listings.csv'' ?rows,
          Print_scraped 1, Print_saved ''ibps_job_listings.csv'',
          Print (CHR 0x0A # ''First few listings:''),
          Print_head ?rows]"
  have 1: "scrape_ibps_jobs ?net (\<lambda>f. True) True ''https://www.ibps.in/'' ''ibps_job_listings.csv'' True
             = Inr ?evs" by code_simp
  have 2: "To_csv ''ibps_job_listings.csv'' ?rows \<in> set ?evs" by simp
  from output_has_no_duplicate_title_link [OF 1 2] 1 show ?thesis by blast
qed

text \<open>
  \<^bold>\<open>C4.\<close> When no location marker matches in a listing element (no \<open>span\<close> or
  \<open>div\<close> below it whose class matches \<open>location|place|city\<close>, and no string below it
  that matches \<open>Location|City|Place\<close>), the record that \<open>extract_job_info\<close> returns
  has the \<open>Location\<close> \<open>Not specified\<close>.
\<close>

theorem location_default_when_no_marker:
  assumes "\<forall>t\<in>set (descendants job_element).
             \<not> search_tag ''span'' [(''class'', MRe location_pattern)] t \<and>
             \<not> search_tag ''div'' [(''class'', MRe location_pattern)] t \<and>
             \<not> search_text location_text_pattern t"
    and "fst (extract_job_info base_url job_element) = Some d"
  shows "map_of d ''Location'' = Some ''Not specified''"
proof -
  have "find_tag ''span'' [(''class'', MRe location_pattern)] job_element = None"
    and "find_tag ''div'' [(''class'', MRe location_pattern)] job_element = None"
    and "find_text location_text_pattern job_element = None"
    unfolding find_tag_None_iff find_text_None_iff using assms(1) by blast+
  then have "location_elem job_element = None"
    by (simp add: location_elem_def py_or_None)
  then have "set_location job_element [] = [(''Location'', ''Not specified'')]"
    by (simp add: set_location_def)
  with extract_job_info_Some [OF assms(2)] show ?thesis by auto
qed

theorem location_default_when_no_marker_witness:
  "fst (extract_job_info ''https://www.ibps.in''
          (Tag ''li'' [] [Tag ''a'' [(''href'', ''/crp-clerks'')] [Text NavigableString ''CRP Clerks'']]))
     = Some [(''Job Title'', ''CRP Clerks''), (''Location'', ''Not specified''),
             (''Post/Publish Date'', ''Not specified''),
             (''Link to Detailed Job Page'', ''https://www.ibps.in/crp-clerks'')] \<and>
   map_of [(''Job Title'', ''CRP Clerks''), (''Location'', ''Not specified''),
             (''Post/Publish Date'', ''Not specified''),
             (''Link to Detailed Job Page'', ''https://www.ibps.in/crp-clerks'')] ''Location''
     = Some ''Not specified''"
proof -
  let ?e = "Tag ''li'' [] [Tag ''a'' [(''href'', ''/crp-clerks'')] [Text NavigableString ''CRP Clerks'']]"
  let ?d = "[(''Job Title'', ''CRP Clerks''), (''Location'', ''Not specified''),
             (''Post/Publish Date'', ''Not specified''),
             (''Link to Detailed Job Page'', ''https://www.ibps.in/crp-clerks'')]"
  have 1: "\<forall>t\<in>set (descendants ?e).
             \<not> search_tag ''span'' [(''class'', MRe location_pattern)] t \<and>
             \<not> search_tag ''div'' [(''class'', MRe location_pattern)] t \<and>
             \<not> search_text location_text_pattern t" by code_simp
  have 2: "fst (extract_job_info ''https://www.ibps.in'' ?e) = Some ?d" by code_simp
  from location_default_when_no_marker [OF 1 2] 2 show ?thesis by simp
qed

text \<open>
  \<^bold>\<open>C5.\<close> When the first anchor with an \<open>href\<close> in a listing element is
  \<open>link_elem\<close>, \<open>extract_job_info\<close> returns a record, and its
  \<open>Link to Detailed Job Page\<close> is the \<open>href\<close> itself when that starts with \<open>http\<close>,
  \<open>base_url + link\<close> when it starts with \<open>/\<close>, and \<open>base_url + '/' + link\<close>
  otherwise.
\<close>

theorem relative_link_made_absolute:
  assumes "find_tag ''a'' [(''href'', MTrue)] job_element = Some link_elem"
  shows "\<exists>link d. get_attr link_elem ''href'' = Some link \<and>
           extract_job_info base_url job_element = (Some d, []) \<and>
           (startswith link ''http'' \<longrightarrow>
              map_of d ''Link to Detailed Job Page'' = Some link) \<and>
           (\<not> startswith link ''http'' \<and> startswith link ''/'' \<longrightarrow>
              map_of d ''Link to Detailed Job Page'' = Some (base_url @ link)) \<and>
           (\<not> startswith link ''http'' \<and> \<not> startswith link ''/'' \<longrightarrow>
              map_of d ''Link to Detailed Job Page'' = Some (base_url @ ''/'' @ link))"
proof -
  from assms have mem: "link_elem \<in> set (descendants job_element)"
    and st: "search_tag ''a'' [(''href'', MTrue)] link_elem"
    unfolding find_tag_Some_iff by auto
  obtain n a cs where e: "job_element = Tag n a cs"
    using has_descendant_Tag [OF mem] by blast
  from st obtain n' a' cs' where l: "link_elem = Tag n' a' cs'" and n': "n' = ''a''"
    by (cases link_elem) auto
  from st l obtain link where link: "get_attr link_elem ''href'' = Some link"
    by (auto simp: attr_value_def split: option.splits if_splits)
  have "search_tag ''a'' [] link_elem" using l n' by simp
  with mem have "find_tag ''a'' [] job_element \<noteq> None"
    unfolding find_tag_None_iff by blast
  then have "\<exists>t. set_title job_element [] = Some [(''Job Title'', t)]"
    unfolding set_title_eq by (auto split: option.splits)
  then obtain t where t: "set_title job_element [] = Some [(''Job Title'', t)]" ..
  have lk: "set_link base_url job_element [] =
          [(''Link to Detailed Job Page'', absolute_link base_url link)]"
    using assms link l by (simp add: set_link_def)
  from extract_job_info_Tag [OF t [unfolded e], of base_url] lk
  obtain d where d: "extract_job_info base_url job_element = (Some d, [])"
    and "map_of d ''Link to Detailed Job Page'' = Some (absolute_link base_url link)"
    unfolding e by auto
  with link absolute_link_cases [of link base_url] show ?thesis by metis
qed

theorem relative_link_made_absolute_witness:
  "\<exists>d. extract_job_info ''https://www.ibps.in''
          (Tag ''li'' [] [Tag ''a'' [(''href'', ''notice/12'')] [Text NavigableString ''CWE Notice'']])
        = (Some d, []) \<and>
       map_of d ''Link to Detailed Job Page'' = Some ''https://www.ibps.in/notice/12''"
proof -
  let ?l = "Tag ''a'' [(''href'', ''notice/12'')] [Text NavigableString ''CWE Notice'']"
  let ?e = "Tag ''li'' [] [?l]"
  have 1: "find_tag ''a'' [(''href'', MTrue)] ?e = Some ?l" by code_simp
  from relative_link_made_absolute [OF 1, of "''https://www.ibps.in''"]
  obtain link d where a: "get_attr ?l ''href'' = Some link"
    and d: "extract_job_info ''https://www.ibps.in'' ?e = (Some d, [])"
    and c: "\<not> startswith link ''http'' \<and> \<not> startswith link ''/'' \<longrightarrow>
           map_of d ''Link to Detailed Job Page'' = Some (''https://www.ibps.in'' @ ''/'' @ link)"
    by blast
  from a have l: "link = ''notice/12''" by (simp add: attr_written_def)
  have "\<not> startswith ''notice/12'' ''http'' \<and> \<not> startswith ''notice/12'' ''/''"
    by (simp add: startswith_def)
  with c l have "map_of d ''Link to Detailed Job Page'' = Some ''https://www.ibps.in/notice/12''"
    by simp
  with d show ?thesis by blast
qed

text \<open>
  \<^bold>\<open>C6.\<close> When the request of \<open>get_page_content\<close> raises an SSL error while
  verification is enabled, the call sends exactly two requests, the second one with
  \<open>verify=False\<close>, prints the warning, and returns \<open>None\<close> if the second request fails
  too. When the first request fails in any other way, the call returns \<open>None\<close> and has
  sent that one request only.
\<close>

theorem ssl_error_retried_once_without_verification:
  assumes "get_page_content net certifi_available url verify_ssl = (result, evs)"
  shows "(verify_ssl \<and>
          net 0 url (if certifi_available then Bundle else Flag True) = Fails SSLError \<longrightarrow>
            requests_sent evs =
              [(url, if certifi_available then Bundle else Flag True), (url, Flag False)] \<and>
            Print ''Warning: SSL verification is disabled. This is less secure but may be necessary on some systems.''
              \<in> set evs \<and>
            ((\<exists>e. fetch (net 1 url (Flag False)) = Inl e) \<longrightarrow> result = None)) \<and>
         (fetch (net 0 url (if certifi_available \<and> verify_ssl then Bundle else Flag verify_ssl))
            = Inl RequestException \<longrightarrow>
            result = None \<and>
            requests_sent evs =
              [(url, if certifi_available \<and> verify_ssl then Bundle else Flag verify_ssl)])"
proof (intro conjI impI)
  assume "fetch (net 0 url (if certifi_available \<and> verify_ssl then Bundle else Flag verify_ssl))
            = Inl RequestException"
  with assms show "result = None"
    and "requests_sent evs =
              [(url, if certifi_available \<and> verify_ssl then Bundle else Flag verify_ssl)]"
    by (auto simp: get_page_content_def Let_def)
next
  assume h: "verify_ssl \<and>
          net 0 url (if certifi_available then Bundle else Flag True) = Fails SSLError"
  then have f: "fetch (net 0 url (if certifi_available \<and> verify_ssl then Bundle else Flag verify_ssl))
            = Inl SSLError" by (cases certifi_available) auto
  from h have v: "(if certifi_available \<and> verify_ssl then Bundle else Flag verify_ssl) =
        (if certifi_available then Bundle else Flag True)" by simp
  show "requests_sent evs =
              [(url, if certifi_available then Bundle else Flag True), (url, Flag False)]"
    using assms h f unfolding get_page_content_def Let_def v
    by (cases "fetch (net 1 url (Flag False))") auto
  show "Print ''Warning: SSL verification is disabled. This is less secure but may be necessary on some systems.''
              \<in> set evs"
    using assms h f unfolding get_page_content_def Let_def v
    by (cases "fetch (net 1 url (Flag False))") auto
  show "(\<exists>e. fetch (net 1 url (Flag False)) = Inl e) \<Longrightarrow> result = None"
    using assms h f unfolding get_page_content_def Let_def v
    by (cases "fetch (net 1 url (Flag False))") auto
qed

theorem ssl_error_retried_once_without_verification_witness:
  "get_page_content (\<lambda>k u v. Fails SSLError) True ''https://www.ibps.in/'' True =
     (None,
      [Request ''https://www.ibps.in/'' Bundle, Print_ssl_error,
       Print ''Retrying without SSL verification...'',
       Print ''Warning: SSL verification is disabled. This is less secure but may be necessary on some systems.'',
       Request ''https://www.ibps.in/'' (Flag False), Print_retry_error]) \<and>
   requests_sent
      [Request ''https://www.ibps.in/'' Bundle, Print_ssl_error,
       Print ''Retrying without SSL verification...'',
       Print ''Warning: SSL verification is disabled. This is less secure but may be necessary on some systems.'',
       Request ''https://www.ibps.in/'' (Flag False), Print_retry_error]
     = [(''https://www.ibps.in/'', Bundle), (''https://www.ibps.in/'', Flag False)] \<and>
   get_page_content (\<lambda>k u v. Reply 503 (Tag ''[document]'' [] [])) True ''https://www.ibps.in/'' True =
     (None, [Request ''https://www.ibps.in/'' Bundle, Print_fetch_error])"
proof -
  let ?net = "(\<lambda>k u v. Fails SSLError) :: network"
  let ?net2 = "(\<lambda>k u v. Reply 503 (Tag ''[document]'' [] [])) :: network"
  let ?evs = "[Request ''https://www.ibps.in/'' Bundle, Print_ssl_error,
       Print ''Retrying without SSL verification...'',
       Print ''Warning: SSL verification is disabled. This is less secure but may be necessary on some systems.'',
       Request ''https://www.ibps.in/'' (Flag False), Print_retry_error]"
  have 1: "get_page_content ?net True ''https://www.ibps.in/'' True = (None, ?evs)"
    by (simp add: get_page_content_def)
  have 2: "get_page_content ?net2 True ''https://www.ibps.in/'' True =
     (None, [Request ''https://www.ibps.in/'' Bundle, Print_fetch_error])"
    by (simp add: get_page_content_def)
  have 3: "True \<and> ?net 0 ''https://www.ibps.in/'' (if True then Bundle else Flag True) = Fails SSLError"
    by simp
  from ssl_error_retried_once_without_verification [OF 1] 3 have 4: "requests_sent ?evs =
      [(''https://www.ibps.in/'', if True then Bundle else Flag True), (''https://www.ibps.in/'', Flag False)]"
    by blast
  have 5: "fetch (?net2 0 ''https://www.ibps.in/'' (if True \<and> True then Bundle else Flag True))
            = Inl RequestException" by simp
  from ssl_error_retried_once_without_verification [OF 2] 5 have 6: "(None :: node option) = None" by blast
  from 1 2 4 6 show ?thesis by simp
qed

text \<open>
  \<^bold>\<open>C7.\<close> When an exception is raised while one element is extracted,
  \<open>extract_job_info\<close> prints the error and returns \<open>None\<close>, and the loop skips that
  element only: it goes on to the end, the jobs it collects are those of the elements
  before followed by those of the elements after, its output is theirs with the one
  error line in between, and every other element whose record passes the filters has
  its record among the jobs. In a run, the loop always hands its jobs on to the saving
  step: the one exception that can end a run is the \<open>OSError\<close> of an output file that
  cannot be written.
\<close>

theorem extraction_failure_skips_element_only:
  assumes "extract_job_body_with faults default_base_url job_elem = Inl x"
  shows "extract_job_info_with faults default_base_url job_elem =
           (None, [Print_extract_error x]) \<and>
         (\<exists>jobs1 out1 jobs2 out2.
            extract_loop_with faults before ([], []) = Inr (jobs1, out1) \<and>
            extract_loop_with faults after ([], []) = Inr (jobs2, out2) \<and>
            extract_loop_with faults (before @ job_elem # after) ([], []) =
              Inr (jobs1 @ jobs2, out1 @ Print_extract_error x # out2) \<and>
            (\<forall>e\<in>set before \<union> set after. \<forall>d title.
               fst (extract_job_info_with faults default_base_url e) = Some d \<and>
               map_of d ''Job Title'' = Some title \<and> title \<noteq> [] \<and>
               \<not> list_ex (\<lambda>keyword. str_in keyword (strip (lower title))) exclude_keywords \<and>
               length title < 100 \<longrightarrow>
               d \<in> set (jobs1 @ jobs2))) \<and>
         (\<forall>soup fetched.
            get_page_content net certifi_available url verify_ssl = (Some soup, fetched) \<longrightarrow>
            (\<exists>jobs printed.
               extract_loop_with faults (fst (find_job_elements soup)) ([], []) =
                 Inr (jobs, printed) \<and>
               scrape_ibps_jobs_with faults net writable certifi_available url output_file
                   verify_ssl =
                 (case save_jobs writable output_file jobs of
                    Inl e \<Rightarrow> Inl e
                  | Inr saved \<Rightarrow>
                      Inr (Print_fetching url # fetched @ snd (find_job_elements soup) @
                           printed @ saved)))) \<and>
         (\<forall>e. scrape_ibps_jobs_with faults net writable certifi_available url output_file
                  verify_ssl = Inl e \<longrightarrow>
              e = OSError \<and> \<not> writable output_file)"
proof (intro conjI allI impI)
  show i: "extract_job_info_with faults default_base_url job_elem =
           (None, [Print_extract_error x])"
    using assms by (simp add: extract_job_info_with_def)
  from extract_loop_with_Inr [of faults before "([], [])"] obtain jobs1 out1
    where 1: "extract_loop_with faults before ([], []) = Inr (jobs1, out1)" by blast
  from extract_loop_with_Inr [of faults after "([], [])"] obtain jobs2 out2
    where 2: "extract_loop_with faults after ([], []) = Inr (jobs2, out2)" by blast
  from extract_loop_with_shape [of faults after] obtain js pr
    where s: "\<forall>jobs out. extract_loop_with faults after (jobs, out) = Inr (jobs @ js, out @ pr)"
    by blast
  with 2 have js: "js = jobs2" and pr: "pr = out2" by simp_all
  have 3: "loop_body_with faults job_elem (jobs1, out1) =
             Inr (jobs1, out1 @ [Print_extract_error x])"
    using i by (simp add: loop_body_with_def)
  have 4: "extract_loop_with faults (before @ job_elem # after) ([], []) =
             Inr (jobs1 @ jobs2, out1 @ Print_extract_error x # out2)"
    using 1 3 s js pr by (simp add: extract_loop_with_append)
  have 5: "\<forall>e\<in>set before \<union> set after. \<forall>d title.
               fst (extract_job_info_with faults default_base_url e) = Some d \<and>
               map_of d ''Job Title'' = Some title \<and> title \<noteq> [] \<and>
               \<not> list_ex (\<lambda>keyword. str_in keyword (strip (lower title))) exclude_keywords \<and>
               length title < 100 \<longrightarrow>
               d \<in> set (jobs1 @ jobs2)"
  proof (intro ballI allI impI)
    fix e d title
    assume e: "e \<in> set before \<union> set after"
      and h: "fst (extract_job_info_with faults default_base_url e) = Some d \<and>
               map_of d ''Job Title'' = Some title \<and> title \<noteq> [] \<and>
               \<not> list_ex (\<lambda>keyword. str_in keyword (strip (lower title))) exclude_keywords \<and>
               length title < 100"
    from e have "e \<in> set (before @ job_elem # after)" by auto
    with extract_loop_with_keeps [OF 4, of e d title] h
    show "d \<in> set (jobs1 @ jobs2)" by blast
  qed
  from 1 2 4 5 show "\<exists>jobs1 out1 jobs2 out2.
            extract_loop_with faults before ([], []) = Inr (jobs1, out1) \<and>
            extract_loop_with faults after ([], []) = Inr (jobs2, out2) \<and>
            extract_loop_with faults (before @ job_elem # after) ([], []) =
              Inr (jobs1 @ jobs2, out1 @ Print_extract_error x # out2) \<and>
            (\<forall>e\<in>set before \<union> set after. \<forall>d title.
               fst (extract_job_info_with faults default_base_url e) = Some d \<and>
               map_of d ''Job Title'' = Some title \<and> title \<noteq> [] \<and>
               \<not> list_ex (\<lambda>keyword. str_in keyword (strip (lower title))) exclude_keywords \<and>
               length title < 100 \<longrightarrow>
               d \<in> set (jobs1 @ jobs2))" by blast
next
  fix soup fetched
  assume "get_page_content net certifi_available url verify_ssl = (Some soup, fetched)"
  then show "\<exists>jobs printed.
               extract_loop_with faults (fst (find_job_elements soup)) ([], []) =
                 Inr (jobs, printed) \<and>
               scrape_ibps_jobs_with faults net writable certifi_available url output_file
                   verify_ssl =
                 (case save_jobs writable output_file jobs of
                    Inl e \<Rightarrow> Inl e
                  | Inr saved \<Rightarrow>
                      Inr (Print_fetching url # fetched @ snd (find_job_elements soup) @
                           printed @ saved))"
    by (rule scrape_ibps_jobs_with_from_loop)
next
  fix e
  assume "scrape_ibps_jobs_with faults net writable certifi_available url output_file
                  verify_ssl = Inl e"
  then show "e = OSError" and "\<not> writable output_file"
    using scrape_ibps_jobs_with_Inl by blast+
qed

theorem extraction_failure_skips_element_only_witness:
  "extract_loop_with
     (\<lambda>e. if e = Tag ''li'' [(''class'', ''job'')]
                    [Tag ''a'' [(''href'', ''/crp-so'')] [Text NavigableString ''CRP SO'']]
          then Some (Other ''DeprecationWarning'') else None)
     ([Tag ''li'' [(''class'', ''job'')]
         [Tag ''a'' [(''href'', ''/crp-clerks'')] [Text NavigableString ''CRP Clerks'']]] @
      Tag ''li'' [(''class'', ''job'')]
         [Tag ''a'' [(''href'', ''/crp-so'')] [Text NavigableString ''CRP SO'']] #
      [Tag ''li'' [(''class'', ''job'')]
         [Tag ''a'' [(''href'', ''/crp-po'')] [Text NavigableString ''CRP PO'']]]) ([], [])
   = Inr ([(''Job Title'', ''CRP Clerks''), (''Location'', ''Not specified''),
           (''Post/Publish Date'', ''Not specified''),
           (''Link to Detailed Job Page'', ''https://www.ibps.in/crp-clerks'')] #
          [[(''Job Title'', ''CRP PO''), (''Location'', ''Not specified''),
            (''Post/Publish Date'', ''Not specified''),
            (''Link to Detailed Job Page'', ''https://www.ibps.in/crp-po'')]],
          [Print_extract_error (Other ''DeprecationWarning'')]) \<and>
   scrape_ibps_jobs_with
     (\<lambda>e. if e = Tag ''li'' [(''class'', ''job'')]
                    [Tag ''a'' [(''href'', ''/crp-so'')] [Text NavigableString ''CRP SO'']]
          then Some (Other ''DeprecationWarning'') else None)
     (\<lambda>k u v. Reply 200
        (Tag ''[document]'' []
           [Tag ''ul'' [(''class'', ''recruitment-list'')]
              [Tag ''li'' [(''class'', ''job'')]
                 [Tag ''a'' [(''href'', ''/crp-clerks'')] [Text NavigableString ''CRP Clerks'']],
               Tag ''li'' [(''class'', ''job'')]
                 [Tag ''a'' [(''href'', ''/crp-so'')] [Text NavigableString ''CRP SO'']],
               Tag ''li'' [(''class'', ''job'')]
                 [Tag ''a'' [(''href'', ''/crp-po'')] [Text NavigableString ''CRP PO'']]]]))
     (\<lambda>f. True) True ''https://www.ibps.in/'' ''ibps_job_listings.csv'' True
   = Inr [Print_fetching ''https://www.ibps.in/'', Request ''https://www.ibps.in/'' Bundle,
          Print_found 3, Print_extract_error (Other ''DeprecationWarning''),
          To_csv ''ibps_job_listings.csv''
            [[(''Job Title'', ''CRP Clerks''), (''Location'', ''Not specified''),
              (''Post/Publish Date'', ''Not specified''),
              (''Link to Detailed Job Page'', ''https://www.ibps.in/crp-clerks'')],
             [(''Job Title'', ''CRP PO''), (''Location'', ''Not specified''),
              (''Post/Publish Date'', ''Not specified''),
              (''Link to Detailed Job Page'', ''https://www.ibps.in/crp-po'')]],
          Print_scraped 2, Print_saved ''ibps_job_listings.csv'',
          Print (CHR 0x0A # ''First few listings:''),
          Print_head
            [[(''Job Title'', ''CRP Clerks''), (''Location'', ''Not specified''),
              (''Post/Publish Date'', ''Not specified''),
              (''Link to Detailed Job Page'', ''https://www.ibps.in/crp-clerks'')],
             [(''Job Title'', ''CRP PO''), (''Location'', ''Not specified''),
              (''Post/Publish Date'', ''Not specified''),
              (''Link to Detailed Job Page'', ''https://www.ibps.in/crp-po'')]]]"
proof -
  let ?e1 = "Tag ''li'' [(''class'', ''job'')]
         [Tag ''a'' [(''href'', ''/crp-clerks'')] [Text NavigableString ''CRP Clerks'']]"
  let ?e2 = "Tag ''li'' [(''class'', ''job'')]
         [Tag ''a'' [(''href'', ''/crp-so'')] [Text NavigableString ''CRP SO'']]"
  let ?e3 = "Tag ''li'' [(''class'', ''job'')]
         [Tag ''a'' [(''href'', ''/crp-po'')] [Text NavigableString ''CRP PO'']]"
  let ?faults = "\<lambda>e. if e = ?e2 then Some (Other ''DeprecationWarning'') else None"
  let ?net = "(\<lambda>k u v. Reply 200
        (Tag ''[document]'' [] [Tag ''ul'' [(''class'', ''recruitment-list'')] [?e1, ?e2, ?e3]]))
        :: network"
  let ?d1 = "[(''Job Title'', ''CRP Clerks''), (''Location'', ''Not specified''),
              (''Post/Publish Date'', ''Not specified''),
              (''Link to Detailed Job Page'', ''https://www.ibps.in/crp-clerks'')]"
  let ?d3 = "[(''Job Title'', ''CRP PO''), (''Location'', ''Not specified''),
              (''Post/Publish Date'', ''Not specified''),
              (''Link to Detailed Job Page'', ''https://www.ibps.in/crp-po'')]"
  have h: "extract_job_body_with ?faults default_base_url ?e2 = Inl (Other ''DeprecationWarning'')"
    by (simp add: extract_job_body_with_def)
  have b: "extract_loop_with ?faults [?e1] ([], []) = Inr ([?d1], [])" by code_simp
  have a: "extract_loop_with ?faults [?e3] ([], []) = Inr ([?d3], [])" by code_simp
  from extraction_failure_skips_element_only [OF h, of "[?e1]" "[?e3]"]
  obtain jobs1 out1 jobs2 out2
    where "extract_loop_with ?faults [?e1] ([], []) = Inr (jobs1, out1)"
      and "extract_loop_with ?faults [?e3] ([], []) = Inr (jobs2, out2)"
      and l: "extract_loop_with ?faults ([?e1] @ ?e2 # [?e3]) ([], []) =
              Inr (jobs1 @ jobs2, out1 @ Print_extract_error (Other ''DeprecationWarning'') # out2)"
    by blast
  with a b have "jobs1 = [?d1]" "out1 = []" "jobs2 = [?d3]" "out2 = []" by simp_all
  with l have 1: "extract_loop_with ?faults ([?e1] @ ?e2 # [?e3]) ([], []) =
              Inr (?d1 # [?d3], [Print_extract_error (Other ''DeprecationWarning'')])" by simp
  have 2: "scrape_ibps_jobs_with ?faults ?net (\<lambda>f. True) True ''https://www.ibps.in/''
             ''ibps_job_listings.csv'' True
   = Inr [Print_fetching ''https://www.ibps.in/'', Request ''https://www.ibps.in/'' Bundle,
          Print_found 3, Print_extract_error (Other ''DeprecationWarning''),
          To_csv ''ibps_job_listings.csv'' [?d1, ?d3],
          Print_scraped 2, Print_saved ''ibps_job_listings.csv'',
          Print (CHR 0x0A # ''First few listings:''),
          Print_head [?d1, ?d3]]" by code_simp
  from 1 2 show ?thesis by blast
qed

text \<open>
  \<^bold>\<open>C8.\<close> In a run of \<open>scrape_ibps_jobs\<close> whose page was fetched and whose list of
  jobs is empty after the loop, the last lines printed are the guidance and no file is
  written. A file is written only in a run whose list of jobs is not empty: it is the
  output file, and its rows are the jobs without duplicates.
\<close>

theorem no_jobs_no_output_file:
  assumes "scrape_ibps_jobs net writable certifi_available url output_file verify_ssl = Inr evs"
  shows "(\<forall>soup fetched printed.
            get_page_content net certifi_available url verify_ssl = (Some soup, fetched) \<and>
            extract_loop (fst (find_job_elements soup)) ([], []) = Inr ([], printed) \<longrightarrow>
            suffix no_jobs_guidance evs \<and> (\<forall>fname rows. To_csv fname rows \<notin> set evs)) \<and>
         (\<forall>fname rows. To_csv fname rows \<in> set evs \<longrightarrow>
            (\<exists>soup fetched jobs printed.
               get_page_content net certifi_available url verify_ssl = (Some soup, fetched) \<and>
               extract_loop (fst (find_job_elements soup)) ([], []) = Inr (jobs, printed) \<and>
               jobs \<noteq> [] \<and> fname = output_file \<and>
               rows = drop_duplicates [''Job Title'', ''Link to Detailed Job Page''] jobs))"
proof (intro conjI allI impI)
  fix fname rows
  assume "To_csv fname rows \<in> set evs"
  from written_rows [OF assms this]
  show "\<exists>soup fetched jobs printed.
               get_page_content net certifi_available url verify_ssl = (Some soup, fetched) \<and>
               extract_loop (fst (find_job_elements soup)) ([], []) = Inr (jobs, printed) \<and>
               jobs \<noteq> [] \<and> fname = output_file \<and>
               rows = drop_duplicates [''Job Title'', ''Link to Detailed Job Page''] jobs" .
next
  fix soup fetched printed
  assume h: "get_page_content net certifi_available url verify_ssl = (Some soup, fetched) \<and>
            extract_loop (fst (find_job_elements soup)) ([], []) = Inr ([], printed)"
  obtain es found where f: "find_job_elements soup = (es, found)"
    by (cases "find_job_elements soup")
  with h assms have evs: "evs = Print_fetching url # fetched @ found @ printed @ no_jobs_guidance"
    by (simp add: scrape_ibps_jobs_def save_jobs_def)
  then have "evs = (Print_fetching url # fetched @ found @ printed) @ no_jobs_guidance" by simp
  then show "suffix no_jobs_guidance evs" unfolding suffix_def by blast
  show "\<And>fname rows. To_csv fname rows \<notin> set evs"
  proof
    fix fname rows
    assume "To_csv fname rows \<in> set evs"
    from written_rows [OF assms this] h show False by auto
  qed
qed

theorem no_jobs_no_output_file_witness:
  "scrape_ibps_jobs (\<lambda>k u v. Reply 200 (Tag ''[document]'' [] []))
     (\<lambda>f. True) True ''https://www.ibps.in/'' ''ibps_job_listings.csv'' True
   = Inr (Print_fetching ''https://www.ibps.in/'' # Request ''https://www.ibps.in/'' Bundle #
          Print ''Could not find job listings container. Trying alternative approach...'' #
          Print ''Trying to find job listings by link patterns...'' #
          Print_found 0 # no_jobs_guidance) \<and>
   suffix no_jobs_guidance
     (Print_fetching ''https://www.ibps.in/'' # Request ''https://www.ibps.in/'' Bundle #
      Print ''Could not find job listings container. Trying alternative approach...'' #
      Print ''Trying to find job listings by link patterns...'' #
      Print_found 0 # no_jobs_guidance) \<and>
   To_csv ''ibps_job_listings.csv'' [] \<notin> set
     (Print_fetching ''https://www.ibps.in/'' # Request ''https://www.ibps.in/'' Bundle #
      Print ''Could not find job listings container. Trying alternative approach...'' #
      Print ''Trying to find job listings by link patterns...'' #
      Print_found 0 # no_jobs_guidance)"
proof -
  let ?net = "(\<lambda>k u v. Reply 200 (Tag ''[document]'' [] [])) :: network"
  let ?evs = "Print_fetching ''https://www.ibps.in/'' # Request ''https://www.ibps.in/'' Bundle #
      Print ''Could not find job listings container. Trying alternative approach...'' #
      Print ''Trying to find job listings by link patterns...'' #
      Print_found 0 # no_jobs_guidance"
  have 1: "scrape_ibps_jobs ?net (\<lambda>f. True) True ''https://www.ibps.in/'' ''ibps_job_listings.csv'' True
             = Inr ?evs" by code_simp
  have 2: "get_page_content ?net True ''https://www.ibps.in/'' True =
             (Some (Tag ''[document]'' [] []), [Request ''https://www.ibps.in/'' Bundle]) \<and>
           extract_loop (fst (find_job_elements (Tag ''[document]'' [] []))) ([], []) = Inr ([], [])"
    by code_simp
  from no_jobs_no_output_file [OF 1] 2
  have "suffix no_jobs_guidance ?evs \<and> (\<forall>fname rows. To_csv fname rows \<notin> set ?evs)"
    by blast
  with 1 show ?thesis by blast
qed

text \<open>
  \<^bold>\<open>C9.\<close> In a record that \<open>extract_job_info\<close> returns, the \<open>Post/Publish Date\<close> is
  the \<open>datetime\<close> attribute of the matched date element when that is a tag with a
  non-empty \<open>datetime\<close> attribute, and \<open>Not specified\<close> when no date selector matches (no
  \<open>span\<close> or \<open>div\<close> whose class matches \<open>date|published|post\<close>, no \<open>time\<close> tag and no
  string with a date in it).
\<close>

theorem datetime_attribute_overrides_date_text:
  assumes "fst (extract_job_info base_url job_element) = Some d"
  shows "(\<forall>n a cs v. date_elem job_element = Some (Tag n a cs) \<and>
              get_attr (Tag n a cs) ''datetime'' = Some v \<and> v \<noteq> [] \<longrightarrow>
            map_of d ''Post/Publish Date'' = Some v) \<and>
         ((\<forall>t\<in>set (descendants job_element).
              \<not> search_tag ''span'' [(''class'', MRe date_pattern)] t \<and>
              \<not> search_tag ''div'' [(''class'', MRe date_pattern)] t \<and>
              \<not> search_tag ''time'' [] t \<and>
              \<not> search_text Date_I t) \<longrightarrow>
            map_of d ''Post/Publish Date'' = Some ''Not specified'')"
proof (intro conjI allI impI)
  fix n a cs v
  assume h: "date_elem job_element = Some (Tag n a cs) \<and>
              get_attr (Tag n a cs) ''datetime'' = Some v \<and> v \<noteq> []"
  then have "set_date job_element [] = [(''Post/Publish Date'', v)]"
    by (simp add: set_date_def)
  with extract_job_info_Some [OF assms] show "map_of d ''Post/Publish Date'' = Some v" by auto
next
  assume "\<forall>t\<in>set (descendants job_element).
              \<not> search_tag ''span'' [(''class'', MRe date_pattern)] t \<and>
              \<not> search_tag ''div'' [(''class'', MRe date_pattern)] t \<and>
              \<not> search_tag ''time'' [] t \<and>
              \<not> search_text Date_I t"
  then have "find_tag ''span'' [(''class'', MRe date_pattern)] job_element = None"
    and "find_tag ''div'' [(''class'', MRe date_pattern)] job_element = None"
    and "find_tag ''time'' [] job_element = None"
    and "find_text Date_I job_element = None"
    unfolding find_tag_None_iff find_text_None_iff by blast+
  then have "date_elem job_element = None"
    by (simp add: date_elem_def py_or_None)
  then have "set_date job_element [] = [(''Post/Publish Date'', ''Not specified'')]"
    by (simp add: set_date_def)
  with extract_job_info_Some [OF assms] show "map_of d ''Post/Publish Date'' = Some ''Not specified''" by auto
qed

theorem datetime_attribute_overrides_date_text_witness:
  "fst (extract_job_info ''https://www.ibps.in''
          (Tag ''li'' []
             [Tag ''time'' [(''datetime'', ''2024-01-02'')] [Text NavigableString ''2 Jan''],
              Tag ''a'' [] [Text NavigableString ''CRP PO'']]))
     = Some [(''Job Title'', ''CRP PO''), (''Location'', ''Not specified''),
             (''Post/Publish Date'', ''2024-01-02''),
             (''Link to Detailed Job Page'', ''Not available'')] \<and>
   map_of [(''Job Title'', ''CRP PO''), (''Location'', ''Not specified''),
             (''Post/Publish Date'', ''2024-01-02''),
             (''Link to Detailed Job Page'', ''Not available'')] ''Post/Publish Date''
     = Some ''2024-01-02'' \<and>
   fst (extract_job_info ''https://www.ibps.in''
          (Tag ''li'' [] [Tag ''a'' [] [Text NavigableString ''CRP PO'']]))
     = Some [(''Job Title'', ''CRP PO''), (''Location'', ''Not specified''),
             (''Post/Publish Date'', ''Not specified''),
             (''Link to Detailed Job Page'', ''Not available'')] \<and>
   map_of [(''Job Title'', ''CRP PO''), (''Location'', ''Not specified''),
             (''Post/Publish Date'', ''Not specified''),
             (''Link to Detailed Job Page'', ''Not available'')] ''Post/Publish Date''
     = Some ''Not specified''"
proof -
  let ?t = "Tag ''time'' [(''datetime'', ''2024-01-02'')] [Text NavigableString ''2 Jan'']"
  let ?e1 = "Tag ''li'' [] [?t, Tag ''a'' [] [Text NavigableString ''CRP PO'']]"
  let ?e2 = "Tag ''li'' [] [Tag ''a'' [] [Text NavigableString ''CRP PO'']]"
  let ?d1 = "[(''Job Title'', ''CRP PO''), (''Location'', ''Not specified''),
             (''Post/Publish Date'', ''2024-01-02''),
             (''Link to Detailed Job Page'', ''Not available'')]"
  let ?d2 = "[(''Job Title'', ''CRP PO''), (''Location'', ''Not specified''),
             (''Post/Publish Date'', ''Not specified''),
             (''Link to Detailed Job Page'', ''Not available'')]"
  have d1: "fst (extract_job_info ''https://www.ibps.in'' ?e1) = Some ?d1" by code_simp
  have d2: "fst (extract_job_info ''https://www.ibps.in'' ?e2) = Some ?d2" by code_simp
  have 1: "date_elem ?e1 = Some ?t \<and> get_attr ?t ''datetime'' = Some ''2024-01-02'' \<and>
           ''2024-01-02'' \<noteq> []" by code_simp
  have 2: "\<forall>t\<in>set (descendants ?e2).
              \<not> search_tag ''span'' [(''class'', MRe date_pattern)] t \<and>
              \<not> search_tag ''div'' [(''class'', MRe date_pattern)] t \<and>
              \<not> search_tag ''time'' [] t \<and>
              \<not> search_text Date_I t" by code_simp
  from datetime_attribute_overrides_date_text [OF d1] 1 have 3: "map_of ?d1 ''Post/Publish Date'' = Some ''2024-01-02''" by blast
  from datetime_attribute_overrides_date_text [OF d2] 2 have 4: "map_of ?d2 ''Post/Publish Date'' = Some ''Not specified''" by blast
  from d1 d2 3 4 show ?thesis by blast
qed

text \<open>
  \<^bold>\<open>C10.\<close> \<open>extract_job_info\<close> returns \<open>None\<close> exactly when its body raises or the
  listing element contains neither a recognizable title tag nor an anchor. Every record
  it returns has the four fields \<open>Job Title\<close>, \<open>Location\<close>, \<open>Post/Publish Date\<close> and
  \<open>Link to Detailed Job Page\<close>, in this order and no other, and the last one is
  \<open>Not available\<close> when the element has no anchor with an \<open>href\<close>.
\<close>

theorem extract_job_info_None_iff:
  "(fst (extract_job_info base_url job_element) = None \<longleftrightarrow>
      (\<exists>x. extract_job_body base_url job_element = Inl x) \<or>
      (\<forall>t\<in>set (descendants job_element).
         \<not> search_tag ''h4'' [] t \<and> \<not> search_tag ''h3'' [] t \<and> \<not> search_tag ''h2'' [] t \<and>
         \<not> search_tag ''a'' [(''class'', MRe title_pattern)] t \<and>
         \<not> search_tag ''span'' [(''class'', MRe title_pattern)] t \<and>
         \<not> search_tag ''a'' [] t)) \<and>
   (\<forall>d. fst (extract_job_info base_url job_element) = Some d \<longrightarrow>
      map fst d = [''Job Title'', ''Location'', ''Post/Publish Date'',
                   ''Link to Detailed Job Page''] \<and>
      ((\<forall>t\<in>set (descendants job_element). \<not> search_tag ''a'' [(''href'', MTrue)] t) \<longrightarrow>
         map_of d ''Link to Detailed Job Page'' = Some ''Not available''))"
proof (intro conjI allI impI)
  show "fst (extract_job_info base_url job_element) = None \<longleftrightarrow>
      (\<exists>x. extract_job_body base_url job_element = Inl x) \<or>
      (\<forall>t\<in>set (descendants job_element).
         \<not> search_tag ''h4'' [] t \<and> \<not> search_tag ''h3'' [] t \<and> \<not> search_tag ''h2'' [] t \<and>
         \<not> search_tag ''a'' [(''class'', MRe title_pattern)] t \<and>
         \<not> search_tag ''span'' [(''class'', MRe title_pattern)] t \<and>
         \<not> search_tag ''a'' [] t)"
  proof (cases job_element)
    case (Tag n a cs)
    have "fst (extract_job_info base_url job_element) = None \<longleftrightarrow> set_title job_element [] = None"
      unfolding Tag by (simp add: extract_job_info_def split: option.splits)
    moreover have "\<not> (\<exists>x. extract_job_body base_url job_element = Inl x)"
      unfolding Tag by simp
    ultimately show ?thesis unfolding set_title_None_iff by blast
  next
    case (Text c s)
    then show ?thesis by (simp add: extract_job_info_def)
  qed
next
  fix d
  assume d: "fst (extract_job_info base_url job_element) = Some d"
  with extract_job_info_Some [OF d]
  show "map fst d = [''Job Title'', ''Location'', ''Post/Publish Date'',
                   ''Link to Detailed Job Page'']" by auto
next
  fix d
  assume d: "fst (extract_job_info base_url job_element) = Some d"
    and "\<forall>t\<in>set (descendants job_element). \<not> search_tag ''a'' [(''href'', MTrue)] t"
  then have "find_tag ''a'' [(''href'', MTrue)] job_element = None"
    unfolding find_tag_None_iff by blast
  then have "set_link base_url job_element [] =
               [(''Link to Detailed Job Page'', ''Not available'')]"
    by (simp add: set_link_def)
  with extract_job_info_Some [OF d]
  show "map_of d ''Link to Detailed Job Page'' = Some ''Not available''" by auto
qed

theorem extract_job_info_None_iff_witness:
  "fst (extract_job_info ''https://www.ibps.in'' (Tag ''li'' [] [Text NavigableString ''Notice board''])) = None \<and>
   fst (extract_job_info ''https://www.ibps.in'' (Tag ''li'' [] [Tag ''a'' [] [Text NavigableString ''CRP PO'']]))
     = Some [(''Job Title'', ''CRP PO''), (''Location'', ''Not specified''),
             (''Post/Publish Date'', ''Not specified''),
             (''Link to Detailed Job Page'', ''Not available'')] \<and>
   map_of [(''Job Title'', ''CRP PO''), (''Location'', ''Not specified''),
             (''Post/Publish Date'', ''Not specified''),
             (''Link to Detailed Job Page'', ''Not available'')] ''Link to Detailed Job Page''
     = Some ''Not available''"
proof -
  let ?e0 = "Tag ''li'' [] [Text NavigableString ''Notice board'']"
  let ?e2 = "Tag ''li'' [] [Tag ''a'' [] [Text NavigableString ''CRP PO'']]"
  let ?d2 = "[(''Job Title'', ''CRP PO''), (''Location'', ''Not specified''),
             (''Post/Publish Date'', ''Not specified''),
             (''Link to Detailed Job Page'', ''Not available'')]"
  have 0: "\<forall>t\<in>set (descendants ?e0).
         \<not> search_tag ''h4'' [] t \<and> \<not> search_tag ''h3'' [] t \<and> \<not> search_tag ''h2'' [] t \<and>
         \<not> search_tag ''a'' [(''class'', MRe title_pattern)] t \<and>
         \<not> search_tag ''span'' [(''class'', MRe title_pattern)] t \<and>
         \<not> search_tag ''a'' [] t" by simp
  have d2: "fst (extract_job_info ''https://www.ibps.in'' ?e2) = Some ?d2" by code_simp
  have 2: "\<forall>t\<in>set (descendants ?e2). \<not> search_tag ''a'' [(''href'', MTrue)] t"
    by code_simp
  from extract_job_info_None_iff [of "''https://www.ibps.in''" ?e0] 0
  have 3: "fst (extract_job_info ''https://www.ibps.in'' ?e0) = None" by blast
  from extract_job_info_None_iff [of "''https://www.ibps.in''" ?e2] d2 2
  have 4: "map_of ?d2 ''Link to Detailed Job Page'' = Some ''Not available''" by blast
  from 3 d2 4 show ?thesis by blast
qed

end
